theory Spec2Isabelle
  imports Main
begin

section \<open>Python values, objects and the object store\<close>

text \<open>
  The record tree of \<^verbatim>\<open>metadata_model.py\<close> is built from mutable Python objects:
  pydantic nodes (\<^verbatim>\<open>BaseModel\<close> instances) and lists, both of which the code
  updates in place (\<^verbatim>\<open>setattr\<close>, \<^verbatim>\<open>value[position] = ...\<close>) and shares by
  reference (a list of the configuration is stored in a field as it is). They live in
  a store, addressed by position; a value refers to one by \<open>VRef\<close>. Dictionaries are
  only ever read or built afresh by the code, so they are plain values.
\<close>

datatype cls = MetadataRecord | Catalog | Dataset | Distribution | Agent | Kind

datatype enum_ty = AccessRights | DatasetTheme | DatasetStatus

datatype val =
    VNone
  | VBool bool
  | VInt int
  | VStr string
  | VUrl string                  \<comment> \<open>an instance of \<^verbatim>\<open>AnyHttpUrl\<close>\<close>
  | VEnum enum_ty string         \<comment> \<open>a member of one of the imported enumerations\<close>
  | VDict "(string \<times> val) list"
  | VRef nat                     \<comment> \<open>a list or a node of the store\<close>

datatype obj =
    OList "val list"
  | ONode cls "(string \<times> val) list"

text \<open>
  Exceptions. \<open>Raised\<close> is a \<^verbatim>\<open>raise\<close> statement of the source with its message;
  \<open>Builtin\<close> is an exception raised by the interpreter or by pydantic, whose message
  is not part of the source. \<open>Unmodelled\<close> marks the few places where the source goes
  on with text produced by a \<^verbatim>\<open>__str__\<close> or \<^verbatim>\<open>__len__\<close> that lies outside the
  source (formatting a library object into an f-string).
\<close>

datatype exn = AttributeError | TypeError | ValueError | ValidationError | RecursionError

datatype error = Raised exn string | Builtin exn | Unmodelled

record state =
  heap :: "obj list"
  warnings :: "string list"

type_synonym 'a res = "state \<times> (error + 'a)"

text \<open>
  Field metadata of a pydantic class, as the code reads it:
  \<^verbatim>\<open>'List' in str(field.annotation)\<close> and \<^verbatim>\<open>field.is_required()\<close>. A field
  is required exactly when it has no default. The classes \<^verbatim>\<open>Catalog\<close>,
  \<^verbatim>\<open>Dataset\<close>, \<^verbatim>\<open>Distribution\<close>, \<^verbatim>\<open>Agent\<close> and \<^verbatim>\<open>Kind\<close> come from the module
  \<^verbatim>\<open>schema_definitions_hri\<close> and the lookup tables from the module \<^verbatim>\<open>mappings\<close>;
  neither is part of the source at hand, so both are parameters (\<open>env\<close>).
\<close>

record finfo =
  is_list_type :: bool
  default_value :: "val option"

definition is_required :: "finfo \<Rightarrow> bool" where
  "is_required fi = (default_value fi = None)"

record env =
  schema :: "cls \<Rightarrow> (string \<times> finfo) list"
  access_rights :: "(string \<times> val) list"
  themes :: "(string \<times> val) list"
  licenses :: "(string \<times> val) list"
  statuses :: "(string \<times> val) list"
  frequencies :: "(string \<times> val) list"

text \<open>
  \<^verbatim>\<open>model_fields\<close>: the three fields of \<^verbatim>\<open>MetadataRecord\<close> are declared in the
  source (\<^verbatim>\<open>catalog: Catalog\<close>, \<^verbatim>\<open>config: Optional[dict] = None\<close>,
  \<^verbatim>\<open>api_data: Optional[dict] = None\<close>).
\<close>

definition model_fields :: "env \<Rightarrow> cls \<Rightarrow> (string \<times> finfo) list" where
  "model_fields E c =
     (if c = MetadataRecord
      then [(''catalog'', \<lparr>is_list_type = False, default_value = None\<rparr>),
            (''config'', \<lparr>is_list_type = False, default_value = Some VNone\<rparr>),
            (''api_data'', \<lparr>is_list_type = False, default_value = Some VNone\<rparr>)]
      else schema E c)"

subsection \<open>Strings\<close>

text \<open>
  Strings are sequences of 8-bit characters; \<^verbatim>\<open>str.lower\<close> and \<^verbatim>\<open>str.upper\<close>
  are modelled on the ASCII letters and leave every other character as it is.
\<close>

definition upper_letters :: string where
  "upper_letters = ''ABCDEFGHIJKLMNOPQRSTUVWXYZ''"

definition lower_letters :: string where
  "lower_letters = ''abcdefghijklmnopqrstuvwxyz''"

definition lower_char :: "char \<Rightarrow> char" where
  "lower_char c = (case map_of (zip upper_letters lower_letters) c of Some d \<Rightarrow> d | None \<Rightarrow> c)"

definition upper_char :: "char \<Rightarrow> char" where
  "upper_char c = (case map_of (zip lower_letters upper_letters) c of Some d \<Rightarrow> d | None \<Rightarrow> c)"

definition lower :: "string \<Rightarrow> string" where
  "lower s = map lower_char s"

definition upper :: "string \<Rightarrow> string" where
  "upper s = map upper_char s"

text \<open>\<^verbatim>\<open>', '.join(xs)\<close>\<close>

fun join :: "string \<Rightarrow> string list \<Rightarrow> string" where
  "join sep [] = []"
| "join sep [x] = x"
| "join sep (x # y # r) = x @ sep @ join sep (y # r)"

text \<open>
  \<^verbatim>\<open>repr\<close> of a string, on the strings made of printable ASCII characters other than
  the quote and the backslash (there it is the string between single quotes), and
  \<^verbatim>\<open>str\<close>/\<^verbatim>\<open>repr\<close> of \<^verbatim>\<open>None\<close>, the Booleans and the lists of these. The text
  of every other value (numbers, dictionaries, nested lists, library objects) is left
  out of the model: \<open>None\<close>.
\<close>

definition plain_char :: "char \<Rightarrow> bool" where
  "plain_char c =
     (let n = (of_char c :: nat) in 32 \<le> n \<and> n \<le> 126 \<and> n \<noteq> 39 \<and> n \<noteq> 92)"

definition py_repr_atom :: "val \<Rightarrow> string option" where
  "py_repr_atom v =
     (case v of
        VNone \<Rightarrow> Some ''None''
      | VBool b \<Rightarrow> Some (if b then ''True'' else ''False'')
      | VStr s \<Rightarrow> (if list_all plain_char s then Some ([CHR 39] @ s @ [CHR 39]) else None)
      | _ \<Rightarrow> None)"

fun sequence_opt :: "'a option list \<Rightarrow> 'a list option" where
  "sequence_opt [] = Some []"
| "sequence_opt (x # xs) =
     (case x of None \<Rightarrow> None
      | Some y \<Rightarrow> (case sequence_opt xs of None \<Rightarrow> None | Some ys \<Rightarrow> Some (y # ys)))"

definition py_str :: "state \<Rightarrow> val \<Rightarrow> string option" where
  "py_str st v =
     (case v of
        VStr s \<Rightarrow> Some s
      | VNone \<Rightarrow> Some ''None''
      | VBool b \<Rightarrow> Some (if b then ''True'' else ''False'')
      | VRef a \<Rightarrow>
          (if a < length (heap st) then
             (case heap st ! a of
                OList xs \<Rightarrow>
                  (case sequence_opt (map py_repr_atom xs) of
                     None \<Rightarrow> None
                   | Some rs \<Rightarrow> Some (''['' @ join '', '' rs @ '']''))
              | ONode c attrs \<Rightarrow> None)
           else None)
      | _ \<Rightarrow> None)"

section \<open>Vocabulary normalisation of one value\<close>

text \<open>
  \<^verbatim>\<open>_language_transformation\<close>: \<^verbatim>\<open>len(value) >= 3\<close>, then the f-string over
  \<^verbatim>\<open>value[:3].upper()\<close>. A list has a length but no \<^verbatim>\<open>upper\<close>; \<^verbatim>\<open>None\<close>, a
  Boolean and an integer have no \<^verbatim>\<open>len\<close>.
\<close>

definition language_base :: string where
  "language_base = ''http://publications.europa.eu/resource/authority/language/''"

definition legal_basis_base :: string where
  "legal_basis_base = ''https://w3id.org/dpv#''"

definition language_transformation :: "state \<Rightarrow> val \<Rightarrow> error + val" where
  "language_transformation st value =
     (case value of
        VStr s \<Rightarrow>
          (if length s \<ge> 3 then Inr (VStr (language_base @ upper (take 3 s)))
           else Inl (Raised ValueError ''Provide at least 3 characters for language''))
      | VRef a \<Rightarrow>
          (if a < length (heap st) then
             (case heap st ! a of
                OList xs \<Rightarrow>
                  (if length xs \<ge> 3 then Inl (Builtin AttributeError)
                   else Inl (Raised ValueError ''Provide at least 3 characters for language''))
              | ONode c attrs \<Rightarrow> Inl Unmodelled)
           else Inl Unmodelled)
      | VNone \<Rightarrow> Inl (Builtin TypeError)
      | VBool b \<Rightarrow> Inl (Builtin TypeError)
      | VInt i \<Rightarrow> Inl (Builtin TypeError)
      | _ \<Rightarrow> Inl Unmodelled)"

text \<open>\<^verbatim>\<open>_legal_basis_transformation\<close>: the f-string over the value, whatever it is.\<close>

definition legal_basis_transformation :: "state \<Rightarrow> val \<Rightarrow> error + val" where
  "legal_basis_transformation st value =
     (case py_str st value of
        None \<Rightarrow> Inl Unmodelled
      | Some s \<Rightarrow> Inr (VStr (legal_basis_base @ s)))"

text \<open>
  The second argument of \<^verbatim>\<open>_to_enum\<close> is either a field name or a lookup table.
\<close>

datatype kind = KName string | KTable "(string \<times> val) list"

definition unsupported_message :: "string \<Rightarrow> (string \<times> val) list \<Rightarrow> string" where
  "unsupported_message shown table =
     shown @ '' incorrect or not supported. Supported values: '' @ join '', '' (map fst table)"

text \<open>
  \<^verbatim>\<open>_to_enum\<close>. In the default case every exception of \<^verbatim>\<open>kind[value.lower()]\<close>
  (no \<^verbatim>\<open>lower\<close> on a value that is not a string, no such key) is caught by the
  bare \<^verbatim>\<open>except\<close> and replaced by the \<^verbatim>\<open>ValueError\<close>. The code never passes a
  name other than \<^verbatim>\<open>"language"\<close> and \<^verbatim>\<open>"legal_basis"\<close>; for such a name the handler
  itself fails on \<^verbatim>\<open>kind.keys()\<close>.
\<close>

definition to_enum :: "state \<Rightarrow> val \<Rightarrow> kind \<Rightarrow> error + val" where
  "to_enum st value kind =
     (case kind of
        KName n \<Rightarrow>
          (if n = ''language'' then language_transformation st value
           else if n = ''legal_basis'' then legal_basis_transformation st value
           else Inl (Builtin AttributeError))
      | KTable table \<Rightarrow>
          (case value of
             VStr s \<Rightarrow>
               (case map_of table (lower s) of
                  Some c \<Rightarrow> Inr c
                | None \<Rightarrow> Inl (Raised ValueError (unsupported_message s table)))
           | VUrl u \<Rightarrow> Inl Unmodelled
           | VEnum t m \<Rightarrow> Inl Unmodelled
           | _ \<Rightarrow>
               (case py_str st value of
                  None \<Rightarrow> Inl Unmodelled
                | Some shown \<Rightarrow> Inl (Raised ValueError (unsupported_message shown table)))))"


section \<open>Store operations\<close>

text \<open>A loop whose body may raise: the first exception ends it.\<close>

fun for_each :: "(state \<Rightarrow> 'a \<Rightarrow> unit res) \<Rightarrow> state \<Rightarrow> 'a list \<Rightarrow> unit res" where
  "for_each body st [] = (st, Inr ())"
| "for_each body st (x # xs) =
     (case body st x of
        (st1, Inl e) \<Rightarrow> (st1, Inl e)
      | (st1, Inr u) \<Rightarrow> for_each body st1 xs)"

definition obj_at :: "state \<Rightarrow> nat \<Rightarrow> obj option" where
  "obj_at st a = (if a < length (heap st) then Some (heap st ! a) else None)"

definition alloc :: "state \<Rightarrow> obj \<Rightarrow> state \<times> nat" where
  "alloc st ob = (st\<lparr>heap := heap st @ [ob]\<rparr>, length (heap st))"

text \<open>\<^verbatim>\<open>isinstance(v, list)\<close>, \<^verbatim>\<open>isinstance(v, BaseModel)\<close>, the elements of a list.\<close>

definition list_of :: "state \<Rightarrow> val \<Rightarrow> val list option" where
  "list_of st v =
     (case v of
        VRef a \<Rightarrow> (case obj_at st a of Some (OList xs) \<Rightarrow> Some xs | _ \<Rightarrow> None)
      | _ \<Rightarrow> None)"

definition is_list :: "state \<Rightarrow> val \<Rightarrow> bool" where
  "is_list st v = (list_of st v \<noteq> None)"

definition class_of :: "state \<Rightarrow> val \<Rightarrow> cls option" where
  "class_of st v =
     (case v of
        VRef a \<Rightarrow> (case obj_at st a of Some (ONode c attrs) \<Rightarrow> Some c | _ \<Rightarrow> None)
      | _ \<Rightarrow> None)"

definition is_node :: "state \<Rightarrow> val \<Rightarrow> bool" where
  "is_node st v = (class_of st v \<noteq> None)"

fun is_url :: "val \<Rightarrow> bool" where
  "is_url (VUrl u) = True"
| "is_url _ = False"

fun is_enum :: "enum_ty \<Rightarrow> val \<Rightarrow> bool" where
  "is_enum t (VEnum t' m) = (t = t')"
| "is_enum t _ = False"

text \<open>
  Truth value of a Python value: \<^verbatim>\<open>None\<close>, \<^verbatim>\<open>False\<close>, zero and the empty string,
  list and dictionary are falsy; a node, a URL and an enumeration member are truthy.
\<close>

definition truthy :: "state \<Rightarrow> val \<Rightarrow> bool" where
  "truthy st v =
     (case v of
        VNone \<Rightarrow> False
      | VBool b \<Rightarrow> b
      | VInt i \<Rightarrow> i \<noteq> 0
      | VStr s \<Rightarrow> s \<noteq> []
      | VUrl u \<Rightarrow> True
      | VEnum t m \<Rightarrow> True
      | VDict kvs \<Rightarrow> kvs \<noteq> []
      | VRef a \<Rightarrow> (case obj_at st a of Some (OList xs) \<Rightarrow> xs \<noteq> [] | _ \<Rightarrow> True))"

text \<open>
  \<^verbatim>\<open>getattr\<close>: a node that was built by \<^verbatim>\<open>model_construct\<close> has no attribute for
  a field that was neither given nor has a default, and reading it raises
  \<^verbatim>\<open>AttributeError\<close>; so does reading an attribute of a value that is not a node.
\<close>

definition getattr :: "state \<Rightarrow> val \<Rightarrow> string \<Rightarrow> error + val" where
  "getattr st ob name =
     (case ob of
        VRef a \<Rightarrow>
          (case obj_at st a of
             Some (ONode c attrs) \<Rightarrow>
               (case map_of attrs name of
                  Some v \<Rightarrow> Inr v
                | None \<Rightarrow> Inl (Builtin AttributeError))
           | _ \<Rightarrow> Inl (Builtin AttributeError))
      | _ \<Rightarrow> Inl (Builtin AttributeError))"

fun assign :: "string \<Rightarrow> val \<Rightarrow> (string \<times> val) list \<Rightarrow> (string \<times> val) list" where
  "assign k v [] = [(k, v)]"
| "assign k v ((k', v') # r) = (if k = k' then (k, v) # r else (k', v') # assign k v r)"

text \<open>
  \<^verbatim>\<open>setattr\<close> on a pydantic node stores the value without validating it, and raises
  \<^verbatim>\<open>ValueError\<close> for a name that is not a field of the node's class (pydantic's
  behaviour for a class that does not allow extra fields, which is what
  \<^verbatim>\<open>MetadataRecord\<close> is); on a value that is not a node it raises
  \<^verbatim>\<open>AttributeError\<close>.
\<close>

definition setattr :: "env \<Rightarrow> state \<Rightarrow> val \<Rightarrow> string \<Rightarrow> val \<Rightarrow> unit res" where
  "setattr E st ob name v =
     (case ob of
        VRef a \<Rightarrow>
          (case obj_at st a of
             Some (ONode c attrs) \<Rightarrow>
               (if name \<in> fst ` set (model_fields E c)
                then (st\<lparr>heap := (heap st)[a := ONode c (assign name v attrs)]\<rparr>, Inr ())
                else (st, Inl (Builtin ValueError)))
           | _ \<Rightarrow> (st, Inl (Builtin AttributeError)))
      | _ \<Rightarrow> (st, Inl (Builtin AttributeError)))"

text \<open>
  \<^verbatim>\<open>model_construct()\<close>: a new node that holds the default of every field that has
  one and nothing for the others.
\<close>

definition model_construct :: "env \<Rightarrow> cls \<Rightarrow> obj" where
  "model_construct E c =
     ONode c (List.map_filter (\<lambda>(n, fi). map_option (Pair n) (default_value fi))
                (model_fields E c))"

section \<open>Field Filler\<close>

text \<open>
  The six structural keys of \<^verbatim>\<open>_fill_fields\<close> and the class each instantiates; the
  five cases of the \<^verbatim>\<open>match\<close> differ in nothing else.
\<close>

definition structural_class :: "string \<Rightarrow> cls option" where
  "structural_class key =
     (if key = ''catalog'' then Some Catalog
      else if key = ''dataset'' then Some Dataset
      else if key = ''distribution'' then Some Distribution
      else if key = ''creator'' \<or> key = ''publisher'' then Some Agent
      else if key = ''contact_point'' then Some Kind
      else None)"

text \<open>
  \<^verbatim>\<open>_fill_fields\<close>. \<^verbatim>\<open>config.items()\<close> raises \<^verbatim>\<open>AttributeError\<close> on anything
  that is not a dictionary; the handler prints a hint and raises the exception again.
\<close>

fun fill_fields :: "env \<Rightarrow> state \<Rightarrow> val \<Rightarrow> val \<Rightarrow> unit res"
  and fill_items :: "env \<Rightarrow> state \<Rightarrow> val \<Rightarrow> (string \<times> val) list \<Rightarrow> unit res" where
  "fill_fields E st ob (VDict kvs) = fill_items E st ob kvs"
| "fill_fields E st ob VNone = (st, Inl (Builtin AttributeError))"
| "fill_fields E st ob (VBool b) = (st, Inl (Builtin AttributeError))"
| "fill_fields E st ob (VInt i) = (st, Inl (Builtin AttributeError))"
| "fill_fields E st ob (VStr s) = (st, Inl (Builtin AttributeError))"
| "fill_fields E st ob (VUrl u) = (st, Inl (Builtin AttributeError))"
| "fill_fields E st ob (VEnum t m) = (st, Inl (Builtin AttributeError))"
| "fill_fields E st ob (VRef a) = (st, Inl (Builtin AttributeError))"
| "fill_items E st ob [] = (st, Inr ())"
| "fill_items E st ob ((key, value) # rest) =
     (case
        (if is_list st value then setattr E st ob key value
         else
           (case structural_class key of
              Some c \<Rightarrow>
                (case alloc st (model_construct E c) of
                   (st1, a) \<Rightarrow>
                     (case setattr E st1 ob key (VRef a) of
                        (st2, Inl e) \<Rightarrow> (st2, Inl e)
                      | (st2, Inr u) \<Rightarrow>
                          (case getattr st2 ob key of
                             Inl e \<Rightarrow> (st2, Inl e)
                           | Inr child \<Rightarrow> fill_fields E st2 child value)))
            | None \<Rightarrow>
                (if key = ''mapping'' then (st, Inr ())
                 else if truthy st value then setattr E st ob key value
                 else (st, Inr ()))))
      of
        (st', Inl e) \<Rightarrow> (st', Inl e)
      | (st', Inr u) \<Rightarrow> fill_items E st' ob rest)"

section \<open>Mapping Resolver\<close>

text \<open>
  What \<^verbatim>\<open>for internal_field in internal_fields\<close> iterates over: the elements of a
  list, the characters of a string, the keys of a dictionary; \<^verbatim>\<open>None\<close>, a Boolean
  and an integer are not iterable.
\<close>

definition elements_of :: "state \<Rightarrow> val \<Rightarrow> error + val list" where
  "elements_of st v =
     (case v of
        VRef a \<Rightarrow> (case obj_at st a of Some (OList xs) \<Rightarrow> Inr xs | _ \<Rightarrow> Inl Unmodelled)
      | VStr s \<Rightarrow> Inr (map (\<lambda>c. VStr [c]) s)
      | VDict kvs \<Rightarrow> Inr (map (\<lambda>kv. VStr (fst kv)) kvs)
      | VNone \<Rightarrow> Inl (Builtin TypeError)
      | VBool b \<Rightarrow> Inl (Builtin TypeError)
      | VInt i \<Rightarrow> Inl (Builtin TypeError)
      | _ \<Rightarrow> Inl Unmodelled)"

text \<open>
  The body of the innermost loop of \<^verbatim>\<open>_populate_FDP\<close>, for one internal field and
  the value \<^verbatim>\<open>api_data[api_field]\<close>. \<^verbatim>\<open>FDP_obj.keyword + api_value\<close> builds a new
  list and raises \<^verbatim>\<open>TypeError\<close> when the right operand is not a list; an attribute
  name that is not a string is a \<^verbatim>\<open>TypeError\<close> of \<^verbatim>\<open>setattr\<close>.
\<close>

definition write_mapped :: "env \<Rightarrow> state \<Rightarrow> val \<Rightarrow> val \<Rightarrow> val \<Rightarrow> unit res" where
  "write_mapped E st ob api_value internal_field =
     (if truthy st api_value then
        (case internal_field of
           VStr name \<Rightarrow>
             (if name = ''keyword'' then
                (case getattr st ob ''keyword'' of
                   Inl e \<Rightarrow> (st, Inl e)
                 | Inr kw \<Rightarrow>
                     (case list_of st kw of
                        Some xs \<Rightarrow>
                          (case list_of st api_value of
                             Some ys \<Rightarrow>
                               (case alloc st (OList (xs @ ys)) of
                                  (st1, a) \<Rightarrow> setattr E st1 ob name (VRef a))
                           | None \<Rightarrow> (st, Inl (Builtin TypeError)))
                      | None \<Rightarrow> setattr E st ob name api_value))
              else setattr E st ob name api_value)
         | _ \<Rightarrow> (st, Inl (Builtin TypeError)))
      else (st, Inr ()))"

text \<open>One entry \<^verbatim>\<open>api_field: internal_fields\<close> of a mapping directive.\<close>

definition resolve_entry :: "env \<Rightarrow> val \<Rightarrow> val \<Rightarrow> state \<Rightarrow> string \<times> val \<Rightarrow> unit res" where
  "resolve_entry E ob api_data st entry =
     (case api_data of
        VDict api \<Rightarrow>
          (case map_of api (fst entry) of
             None \<Rightarrow> (st, Inr ())
           | Some api_value \<Rightarrow>
               (case elements_of st (snd entry) of
                  Inl e \<Rightarrow> (st, Inl e)
                | Inr internal_fields \<Rightarrow>
                    for_each (\<lambda>s f. write_mapped E s ob api_value f) st internal_fields))
      | _ \<Rightarrow> (st, Inl Unmodelled))"

text \<open>\<^verbatim>\<open>_populate_FDP\<close>.\<close>

fun populate_FDP :: "env \<Rightarrow> state \<Rightarrow> val \<Rightarrow> val \<Rightarrow> val \<Rightarrow> unit res"
  and populate_items :: "env \<Rightarrow> state \<Rightarrow> val \<Rightarrow> val \<Rightarrow> (string \<times> val) list \<Rightarrow> unit res" where
  "populate_FDP E st ob api_data (VDict kvs) = populate_items E st ob api_data kvs"
| "populate_FDP E st ob api_data VNone = (st, Inl (Builtin AttributeError))"
| "populate_FDP E st ob api_data (VBool b) = (st, Inl (Builtin AttributeError))"
| "populate_FDP E st ob api_data (VInt i) = (st, Inl (Builtin AttributeError))"
| "populate_FDP E st ob api_data (VStr s) = (st, Inl (Builtin AttributeError))"
| "populate_FDP E st ob api_data (VUrl u) = (st, Inl (Builtin AttributeError))"
| "populate_FDP E st ob api_data (VEnum t m) = (st, Inl (Builtin AttributeError))"
| "populate_FDP E st ob api_data (VRef a) = (st, Inl (Builtin AttributeError))"
| "populate_items E st ob api_data [] = (st, Inr ())"
| "populate_items E st ob api_data ((field, value) # rest) =
     (case
        (if field = ''catalog'' \<or> field = ''dataset'' \<or> field = ''distribution'' then
           (case getattr st ob field of
              Inl e \<Rightarrow> (st, Inl e)
            | Inr child \<Rightarrow> populate_FDP E st child api_data value)
         else if field = ''mapping'' then
           (case value of
              VDict entries \<Rightarrow> for_each (resolve_entry E ob api_data) st entries
            | _ \<Rightarrow> (st, Inr ()))
         else (st, Inr ()))
      of
        (st', Inl e) \<Rightarrow> (st', Inl e)
      | (st', Inr u) \<Rightarrow> populate_items E st' ob api_data rest)"

text \<open>\<^verbatim>\<open>create_FDP_instance\<close>.\<close>

definition create_FDP_instance :: "env \<Rightarrow> state \<Rightarrow> val \<Rightarrow> val \<Rightarrow> val res" where
  "create_FDP_instance E st config api_data =
     (case alloc st (ONode MetadataRecord [(''config'', config), (''api_data'', api_data)]) of
        (st1, a) \<Rightarrow>
          (if config \<noteq> VNone then
             (case fill_fields E st1 (VRef a) config of
                (st2, Inl e) \<Rightarrow> (st2, Inl e)
              | (st2, Inr u) \<Rightarrow>
                  (if api_data \<noteq> VNone then
                     (case populate_FDP E st2 (VRef a) api_data config of
                        (st3, Inl e) \<Rightarrow> (st3, Inl e)
                      | (st3, Inr u) \<Rightarrow> (st3, Inr (VRef a)))
                   else (st2, Inr (VRef a))))
           else (st1, Inr (VRef a))))"


section \<open>Normaliser: cardinality pass\<close>



section \<open>Normaliser: vocabulary pass\<close>

text \<open>\<^verbatim>\<open>value[position]\<close> and \<^verbatim>\<open>value[position] = v\<close> on a list of the store.\<close>

definition list_set :: "state \<Rightarrow> val \<Rightarrow> nat \<Rightarrow> val \<Rightarrow> state" where
  "list_set st l i v =
     (case l of
        VRef a \<Rightarrow>
          (case obj_at st a of
             Some (OList xs) \<Rightarrow> st\<lparr>heap := (heap st)[a := OList (xs[i := v])]\<rparr>
           | _ \<Rightarrow> st)
      | _ \<Rightarrow> st)"

text \<open>
  The element-wise loops of \<^verbatim>\<open>_string_to_enum\<close>:
  \<^verbatim>\<open>for position, x in enumerate(value): if not isinstance(value[position], T):
  value[position] = ...\<close>. The list keeps its length, so the positions are those of
  the list at the start; each element is read when its turn comes. \<open>conv\<close> is the
  right-hand side of the assignment, given the element \<open>x\<close>.
\<close>

definition convert_at ::
  "(val \<Rightarrow> bool) \<Rightarrow> (state \<Rightarrow> val \<Rightarrow> error + val) \<Rightarrow> val \<Rightarrow> state \<Rightarrow> nat \<Rightarrow> unit res" where
  "convert_at canonical conv value st position =
     (case list_of st value of
        None \<Rightarrow> (st, Inl Unmodelled)
      | Some xs \<Rightarrow>
          (if position < length xs then
             (if \<not> canonical (xs ! position) then
                (case conv st (xs ! position) of
                   Inl e \<Rightarrow> (st, Inl e)
                 | Inr c \<Rightarrow> (list_set st value position c, Inr ()))
              else (st, Inr ()))
           else (st, Inr ())))"

definition convert_elements ::
  "(val \<Rightarrow> bool) \<Rightarrow> (state \<Rightarrow> val \<Rightarrow> error + val) \<Rightarrow> state \<Rightarrow> val \<Rightarrow> unit res" where
  "convert_elements canonical conv st value =
     (case list_of st value of
        None \<Rightarrow> (st, Inl Unmodelled)
      | Some xs \<Rightarrow> for_each (convert_at canonical conv value) st [0..<length xs])"

text \<open>\<^verbatim>\<open>setattr(FDP_obj, field_name, MetadataRecord._to_enum(value, kind))\<close>\<close>

definition set_enum :: "env \<Rightarrow> state \<Rightarrow> val \<Rightarrow> string \<Rightarrow> val \<Rightarrow> kind \<Rightarrow> unit res" where
  "set_enum E st ob field_name value kind =
     (case to_enum st value kind of
        Inl e \<Rightarrow> (st, Inl e)
      | Inr c \<Rightarrow> setattr E st ob field_name c)"

text \<open>
  The \<^verbatim>\<open>match field_name\<close> of \<^verbatim>\<open>_string_to_enum\<close>. Three of its guards test
  \<^verbatim>\<open>FDP_obj\<close>, the node, against \<^verbatim>\<open>DatasetTheme\<close> or \<^verbatim>\<open>AnyHttpUrl\<close>; a node is
  neither, so these guards always let the conversion run (scalar \<^verbatim>\<open>theme\<close>, scalar
  \<^verbatim>\<open>language\<close>, \<^verbatim>\<open>frequency\<close>). The list branch of \<^verbatim>\<open>legal_basis\<close> converts
  \<^verbatim>\<open>value\<close>, the whole list, where the other two list branches convert the element.
\<close>

definition vocabulary_match :: "env \<Rightarrow> state \<Rightarrow> val \<Rightarrow> string \<Rightarrow> val \<Rightarrow> unit res" where
  "vocabulary_match E st ob field_name value =
     (if field_name = ''access_rights'' then
        (if \<not> is_enum AccessRights value
         then set_enum E st ob field_name value (KTable (access_rights E))
         else (st, Inr ()))
      else if field_name = ''theme'' then
        (if is_list st value
         then convert_elements (is_enum DatasetTheme)
                (\<lambda>s theme. to_enum s theme (KTable (themes E))) st value
         else set_enum E st ob field_name value (KTable (themes E)))
      else if field_name = ''language'' then
        (if is_list st value
         then convert_elements is_url (\<lambda>s lang. to_enum s lang (KName field_name)) st value
         else set_enum E st ob field_name value (KName field_name))
      else if field_name = ''license'' then
        (if \<not> is_url value
         then set_enum E st ob field_name value (KTable (licenses E))
         else (st, Inr ()))
      else if field_name = ''legal_basis'' then
        (if is_list st value
         then convert_elements is_url (\<lambda>s basis. to_enum s value (KName field_name)) st value
         else if \<not> is_url value
         then set_enum E st ob field_name value (KName field_name)
         else (st, Inr ()))
      else if field_name = ''status'' then
        (if \<not> is_enum DatasetStatus value
         then set_enum E st ob field_name value (KTable (statuses E))
         else (st, Inr ()))
      else if field_name = ''spatial'' then (st, Inr ())
      else if field_name = ''frequency'' then
        set_enum E st ob field_name value (KTable (frequencies E))
      else (st, Inr ()))"

text \<open>
  \<^verbatim>\<open>for v in value: if isinstance(v, BaseModel): MetadataRecord._string_to_enum(v)\<close>
\<close>

definition recurse_at :: "(state \<Rightarrow> val \<Rightarrow> unit res) \<Rightarrow> val \<Rightarrow> state \<Rightarrow> nat \<Rightarrow> unit res" where
  "recurse_at rec value st position =
     (case list_of st value of
        None \<Rightarrow> (st, Inl Unmodelled)
      | Some xs \<Rightarrow>
          (if position < length xs \<and> is_node st (xs ! position)
           then rec st (xs ! position)
           else (st, Inr ())))"

text \<open>The body of the loop of \<^verbatim>\<open>_string_to_enum\<close> for one field.\<close>

definition vocabulary_field ::
  "(state \<Rightarrow> val \<Rightarrow> unit res) \<Rightarrow> env \<Rightarrow> val \<Rightarrow> state \<Rightarrow> string \<times> finfo \<Rightarrow> unit res" where
  "vocabulary_field rec E ob st fld =
     (case getattr st ob (fst fld) of
        Inl e \<Rightarrow> (st, Inl e)
      | Inr value \<Rightarrow>
          (if truthy st value then
             (case
                (if is_node st value then rec st value
                 else
                   (case list_of st value of
                      Some xs \<Rightarrow> for_each (recurse_at rec value) st [0..<length xs]
                    | None \<Rightarrow> (st, Inr ())))
              of
                (st1, Inl e) \<Rightarrow> (st1, Inl e)
              | (st1, Inr u) \<Rightarrow> vocabulary_match E st1 ob (fst fld) value)
           else (st, Inr ())))"

primrec string_to_enum :: "env \<Rightarrow> nat \<Rightarrow> state \<Rightarrow> val \<Rightarrow> unit res" where
  "string_to_enum E 0 = (\<lambda>st ob. (st, Inl (Builtin RecursionError)))"
| "string_to_enum E (Suc n) = (\<lambda>st ob.
     (case class_of st ob of
        None \<Rightarrow> (st, Inl (Builtin AttributeError))
      | Some c \<Rightarrow> for_each (vocabulary_field (string_to_enum E n) E ob) st (model_fields E c)))"

text \<open>
  The promotion passes \<^verbatim>\<open>_agent_to_HRIAgent\<close> and \<^verbatim>\<open>_kind_to_HRIVCard\<close> build
  their results with the constructors of \<^verbatim>\<open>HRIAgent\<close> and \<^verbatim>\<open>HRIVCard\<close>, which
  validate their arguments inside the library; they are not part of this model.
\<close>

section \<open>Validator\<close>

text \<open>A loop that collects the results of its body.\<close>

fun collect :: "(state \<Rightarrow> 'a \<Rightarrow> 'b res) \<Rightarrow> state \<Rightarrow> 'a list \<Rightarrow> 'b list res" where
  "collect body st [] = (st, Inr [])"
| "collect body st (x # xs) =
     (case body st x of
        (st1, Inl e) \<Rightarrow> (st1, Inl e)
      | (st1, Inr y) \<Rightarrow>
          (case collect body st1 xs of
             (st2, Inl e) \<Rightarrow> (st2, Inl e)
           | (st2, Inr ys) \<Rightarrow> (st2, Inr (y # ys))))"

text \<open>
  The loop of the node branch of \<^verbatim>\<open>_drop_none\<close>: the entries of \<^verbatim>\<open>result\<close> in
  the order of the fields. Any exception of \<^verbatim>\<open>getattr\<close> becomes the
  \<^verbatim>\<open>ValueError\<close>.
\<close>

fun drop_fields ::
  "(state \<Rightarrow> val \<Rightarrow> val res) \<Rightarrow> val \<Rightarrow> state \<Rightarrow> (string \<times> finfo) list \<Rightarrow> (string \<times> val) list res" where
  "drop_fields rec data st [] = (st, Inr [])"
| "drop_fields rec data st ((name, field) # rest) =
     (case getattr st data name of
        Inl e \<Rightarrow>
          (st, Inl (Raised ValueError
                      ''Likely put null or null equivalent value in required field''))
      | Inr value \<Rightarrow>
          (if value \<noteq> VNone \<or> is_required field then
             (case rec st value of
                (st1, Inl e) \<Rightarrow> (st1, Inl e)
              | (st1, Inr r) \<Rightarrow>
                  (case drop_fields rec data st1 rest of
                     (st2, Inl e) \<Rightarrow> (st2, Inl e)
                   | (st2, Inr kvs) \<Rightarrow> (st2, Inr ((name, r) # kvs))))
           else drop_fields rec data st rest))"

text \<open>
  \<^verbatim>\<open>_drop_none\<close>. The snapshot of a node or of a dictionary is a new dictionary,
  that of a list a new list of the store, and any other value is returned as it is.
\<close>

primrec drop_none :: "env \<Rightarrow> nat \<Rightarrow> state \<Rightarrow> val \<Rightarrow> val res" where
  "drop_none E 0 = (\<lambda>st data. (st, Inl (Builtin RecursionError)))"
| "drop_none E (Suc n) = (\<lambda>st data.
     (case data of
        VRef a \<Rightarrow>
          (case obj_at st a of
             Some (ONode c attrs) \<Rightarrow>
               (case drop_fields (drop_none E n) data st (model_fields E c) of
                  (st1, Inl e) \<Rightarrow> (st1, Inl e)
                | (st1, Inr kvs) \<Rightarrow> (st1, Inr (VDict kvs)))
           | Some (OList xs) \<Rightarrow>
               (case collect (drop_none E n) st (filter (\<lambda>v. v \<noteq> VNone) xs) of
                  (st1, Inl e) \<Rightarrow> (st1, Inl e)
                | (st1, Inr ys) \<Rightarrow>
                    (case alloc st1 (OList ys) of (st2, b) \<Rightarrow> (st2, Inr (VRef b))))
           | None \<Rightarrow> (st, Inl Unmodelled))
      | VDict kvs \<Rightarrow>
          (case collect (\<lambda>s kv. case drop_none E n s (snd kv) of
                                  (s1, Inl e) \<Rightarrow> (s1, Inl e)
                                | (s1, Inr r) \<Rightarrow> (s1, Inr (fst kv, r)))
                  st (filter (\<lambda>kv. snd kv \<noteq> VNone) kvs) of
             (st1, Inl e) \<Rightarrow> (st1, Inl e)
           | (st1, Inr rs) \<Rightarrow> (st1, Inr (VDict rs)))
      | _ \<Rightarrow> (st, Inr data)))"

text \<open>
  \<^verbatim>\<open>validate\<close>. \<^verbatim>\<open>type(self).model_validate(cleaned, strict=True)\<close> is pydantic's
  validation of the snapshot against the class of the record; it is the parameter
  \<open>model_validate\<close>, which reads the snapshot and answers with an exception or none.
\<close>

definition validate ::
  "env \<Rightarrow> (cls \<Rightarrow> state \<Rightarrow> val \<Rightarrow> error option) \<Rightarrow> nat \<Rightarrow> state \<Rightarrow> val \<Rightarrow> unit res" where
  "validate E model_validate n st self =
     (case drop_none E n st self of
        (st1, Inl e) \<Rightarrow> (st1, Inl e)
      | (st1, Inr cleaned) \<Rightarrow>
          (case class_of st1 self of
             None \<Rightarrow> (st1, Inl Unmodelled)
           | Some c \<Rightarrow>
               (case model_validate c st1 cleaned of
                  Some e \<Rightarrow> (st1, Inl e)
                | None \<Rightarrow> (st1, Inr ()))))"

section \<open>Relations between stores\<close>

text \<open>
  \<open>extends st st'\<close>: the store \<open>st'\<close> is \<open>st\<close> with new objects added at the end; every
  object of \<open>st\<close> is in \<open>st'\<close> at its address, unchanged, and no warning was added.
\<close>

definition extends :: "state \<Rightarrow> state \<Rightarrow> bool" where
  "extends st st' = (warnings st' = warnings st \<and> (\<exists>new. heap st' = heap st @ new))"



text \<open>
  \<open>keeps_kinds st st'\<close>: every object of \<open>st\<close> is still there in \<open>st'\<close> and is still
  a list, or still a node of the same class; its contents may differ.
\<close>

definition kind_of :: "obj \<Rightarrow> cls option" where
  "kind_of ob = (case ob of OList xs \<Rightarrow> None | ONode c attrs \<Rightarrow> Some c)"

definition keeps_kinds :: "state \<Rightarrow> state \<Rightarrow> bool" where
  "keeps_kinds st st' =
     (length (heap st) \<le> length (heap st')
      \<and> (\<forall>a < length (heap st). kind_of (heap st' ! a) = kind_of (heap st ! a)))"

text \<open>
  \<open>frame ob st st'\<close>: from \<open>st\<close> to \<open>st'\<close> every object keeps its kind, and every object
  other than \<open>ob\<close> keeps its contents.
\<close>

definition frame :: "val \<Rightarrow> state \<Rightarrow> state \<Rightarrow> bool" where
  "frame ob st st' =
     (keeps_kinds st st' \<and> (\<forall>b < length (heap st). ob \<noteq> VRef b \<longrightarrow> heap st' ! b = heap st ! b))"

section \<open>Example schema and inputs\<close>

text \<open>
  A small schema in the shape of the one the tests use: a catalog with a dataset and a
  creator, a dataset with a scalar identifier and list-valued title, keyword,
  legal basis and language, an agent and a contact.
\<close>

definition optional_field :: "bool \<Rightarrow> finfo" where
  "optional_field l = \<lparr>is_list_type = l, default_value = Some VNone\<rparr>"

definition required_field :: "bool \<Rightarrow> finfo" where
  "required_field l = \<lparr>is_list_type = l, default_value = None\<rparr>"

definition example_schema :: "cls \<Rightarrow> (string \<times> finfo) list" where
  "example_schema c =
     (case c of
        Catalog \<Rightarrow> [(''title'', required_field True), (''language'', optional_field True),
                     (''creator'', optional_field True), (''dataset'', optional_field True)]
      | Dataset \<Rightarrow> [(''title'', required_field True), (''identifier'', required_field False),
                     (''keyword'', optional_field True), (''legal_basis'', optional_field True),
                     (''language'', optional_field True)]
      | Agent \<Rightarrow> [(''name'', required_field True), (''homepage'', optional_field False)]
      | Distribution \<Rightarrow> [(''title'', optional_field True), (''access_rights'', required_field False),
                          (''license'', optional_field False)]
      | Kind \<Rightarrow> [(''hasEmail'', required_field False), (''fn'', required_field False),
                  (''hasUrl'', optional_field False)]
      | _ \<Rightarrow> [])"

definition example_env :: env where
  "example_env = \<lparr>schema = example_schema,
     access_rights = [(''public'', VEnum AccessRights ''public'')],
     themes = [(''heal'', VEnum DatasetTheme ''heal'')],
     licenses = [], statuses = [], frequencies = []\<rparr>"

text \<open>A stand-in for the strict validator: it rejects a snapshot in which a required field is
  missing or null and accepts every other one.\<close>

definition example_validate :: "cls \<Rightarrow> state \<Rightarrow> val \<Rightarrow> error option" where
  "example_validate c st snap =
     (case snap of
        VDict kvs \<Rightarrow>
          (if list_ex (\<lambda>fld. is_required (snd fld)
                             \<and> ((fst fld, VNone) \<in> set kvs \<or> fst fld \<notin> set (map fst kvs)))
                (model_fields example_env c)
           then Some (Builtin ValidationError) else None)
      | _ \<Rightarrow> Some (Builtin ValidationError))"

text \<open>
  A dataset whose language is the raw string \<^verbatim>\<open>english\<close>, and the same node after
  one and after two runs of the vocabulary pass.
\<close>

definition language_store :: state where
  "language_store =
     \<lparr>heap = [ONode Dataset [(''title'', VStr ''t''), (''identifier'', VStr ''i''),
                 (''keyword'', VNone), (''legal_basis'', VNone), (''language'', VStr ''english'')]],
      warnings = []\<rparr>"

definition language_once :: state where
  "language_once =
     \<lparr>heap = [ONode Dataset [(''title'', VStr ''t''), (''identifier'', VStr ''i''),
                 (''keyword'', VNone), (''legal_basis'', VNone),
                 (''language'', VStr ''http://publications.europa.eu/resource/authority/language/ENG'')]],
      warnings = []\<rparr>"

definition language_twice :: state where
  "language_twice =
     \<lparr>heap = [ONode Dataset [(''title'', VStr ''t''), (''identifier'', VStr ''i''),
                 (''keyword'', VNone), (''legal_basis'', VNone),
                 (''language'', VStr ''http://publications.europa.eu/resource/authority/language/HTT'')]],
      warnings = []\<rparr>"

text \<open>
  A dataset whose legal basis is the list \<^verbatim>\<open>["InformedConsent"]\<close> and whose language
  is the list \<^verbatim>\<open>["eng"]\<close>.
\<close>

definition legal_basis_store :: state where
  "legal_basis_store =
     \<lparr>heap = [ONode Dataset [(''title'', VStr ''t''), (''identifier'', VStr ''i''),
                 (''keyword'', VNone), (''legal_basis'', VRef 1), (''language'', VRef 2)],
              OList [VStr ''InformedConsent''],
              OList [VStr ''eng'']],
      warnings = []\<rparr>"

text \<open>A distribution whose access rights are the raw string \<^verbatim>\<open>Public\<close>.\<close>

definition distribution_store :: state where
  "distribution_store =
     \<lparr>heap = [ONode Distribution [(''title'', VNone), (''license'', VNone),
                (''access_rights'', VStr ''Public'')]],
      warnings = []\<rparr>"



text \<open>
  A dataset filled from the configuration \<^verbatim>\<open>keyword: ["Test platform"]\<close> (the list at
  address 1 is the list of the configuration), and an API payload with a list of
  keywords, a null title and an empty description. The lists at 3 and 4 are the
  targets \<^verbatim>\<open>["keyword"]\<close> and \<^verbatim>\<open>["title"]\<close> of mapping directives. Then the same
  as a configuration tree and a payload for \<^verbatim>\<open>create_FDP_instance\<close>.
\<close>

definition resolver_store :: state where
  "resolver_store =
     \<lparr>heap = [ONode Dataset [(''keyword'', VRef 1), (''title'', VStr ''Configured title'')],
              OList [VStr ''Test platform''],
              OList [VStr ''Medical'', VStr ''keyword2''],
              OList [VStr ''keyword''],
              OList [VStr ''title'']],
      warnings = []\<rparr>"

definition resolver_api :: "(string \<times> val) list" where
  "resolver_api = [(''challenge_keywords'', VRef 2), (''archive_title'', VNone),
                   (''archive_description'', VStr '''')]"




text \<open>
  A configuration with a mapping directive under \<^verbatim>\<open>creator\<close>, and the scenario
  \<^verbatim>\<open>{dataset: {mapping: {"archive_title": ["title"]}, keyword: ["Test"]}}\<close> with the
  payload \<^verbatim>\<open>{"archive_title": "Title X"}\<close> on a new catalog, before and after the
  Field Filler.
\<close>

definition creator_store :: state where
  "creator_store = \<lparr>heap = [OList [VStr ''homepage'']], warnings = []\<rparr>"

definition creator_config :: val where
  "creator_config =
     VDict [(''catalog'',
        VDict [(''creator'', VDict [(''mapping'', VDict [(''challenge_creator'', VRef 0)])])])]"

definition creator_api :: val where
  "creator_api = VDict [(''challenge_creator'', VStr ''https://creator.org'')]"

definition unfilled_store :: state where
  "unfilled_store =
     \<lparr>heap = [ONode Catalog [(''language'', VNone), (''creator'', VNone), (''dataset'', VNone)],
              OList [VStr ''title''],
              OList [VStr ''Test'']],
      warnings = []\<rparr>"

definition scenario_store :: state where
  "scenario_store =
     \<lparr>heap = [ONode Catalog [(''language'', VNone), (''creator'', VNone), (''dataset'', VRef 3)],
              OList [VStr ''title''],
              OList [VStr ''Test''],
              ONode Dataset [(''keyword'', VRef 2), (''legal_basis'', VNone), (''language'', VNone)]],
      warnings = []\<rparr>"

definition scenario_sub :: val where
  "scenario_sub = VDict [(''mapping'', VDict [(''archive_title'', VRef 1)]), (''keyword'', VRef 2)]"

definition scenario_api :: val where
  "scenario_api = VDict [(''archive_title'', VStr ''Title X'')]"


text \<open>A dataset with two lists, one of which holds a null.\<close>

definition snapshot_store :: state where
  "snapshot_store =
     \<lparr>heap = [ONode Dataset [(''title'', VRef 1), (''identifier'', VStr ''id''), (''keyword'', VRef 2),
                             (''legal_basis'', VNone), (''language'', VNone)],
              OList [VStr ''Title''],
              OList [VStr ''Medical'', VNone]],
      warnings = []\<rparr>"

section \<open>Evaluation on the examples\<close>

lemmas ex_defs = example_env_def example_schema_def optional_field_def required_field_def
  model_fields_def obj_at_def class_of_def getattr_def setattr_def truthy_def is_node_def
  is_list_def list_of_def

lemmas run_defs = ex_defs create_FDP_instance_def alloc_def structural_class_def
  model_construct_def List.map_filter_def resolve_entry_def elements_of_def write_mapped_def

section \<open>Properties of the vocabulary normalisation of one value\<close>

lemma table_field_access_rights: "vocabulary_match E st ob ''access_rights'' (VStr raw) =
          (case to_enum st (VStr raw) (KTable (access_rights E)) of
             Inl e \<Rightarrow> (st, Inl e)
           | Inr c \<Rightarrow> setattr E st ob ''access_rights'' c)"
  by (simp add: vocabulary_match_def set_enum_def)

lemma table_field_theme: "vocabulary_match E st ob ''theme'' (VStr raw) =
          (case to_enum st (VStr raw) (KTable (themes E)) of
             Inl e \<Rightarrow> (st, Inl e)
           | Inr c \<Rightarrow> setattr E st ob ''theme'' c)"
  by (simp add: vocabulary_match_def set_enum_def is_list_def list_of_def)

lemma table_field_license: "vocabulary_match E st ob ''license'' (VStr raw) =
          (case to_enum st (VStr raw) (KTable (licenses E)) of
             Inl e \<Rightarrow> (st, Inl e)
           | Inr c \<Rightarrow> setattr E st ob ''license'' c)"
  by (simp add: vocabulary_match_def set_enum_def)

lemma table_field_status: "vocabulary_match E st ob ''status'' (VStr raw) =
          (case to_enum st (VStr raw) (KTable (statuses E)) of
             Inl e \<Rightarrow> (st, Inl e)
           | Inr c \<Rightarrow> setattr E st ob ''status'' c)"
  by (simp add: vocabulary_match_def set_enum_def)

lemma table_field_frequency: "vocabulary_match E st ob ''frequency'' (VStr raw) =
          (case to_enum st (VStr raw) (KTable (frequencies E)) of
             Inl e \<Rightarrow> (st, Inl e)
           | Inr c \<Rightarrow> setattr E st ob ''frequency'' c)"
  by (simp add: vocabulary_match_def set_enum_def)

text \<open>
  C5. Table lookup (\<^verbatim>\<open>_to_enum\<close> with one of the tables access-rights, theme,
  license, status, frequency, or any other table): a raw string whose lowercased form
  is a key of the table is normalised to exactly the value the table holds under that
  lowercased key; in particular each label of a table with distinct lowercase keys is
  normalised to its own canonical value. A raw string whose lowercased form is no key
  raises a \<^verbatim>\<open>ValueError\<close> whose message starts with the raw string and ends with all
  keys of the table, in the table's order, separated by a comma and a space. For each
  of the five fields the vocabulary pass applies exactly this lookup, in the table
  of that field, to a raw string it finds there, and stores the result in the field.
\<close>

theorem to_enum_table_lookup:
  "(map_of table (lower raw) = Some c \<longrightarrow> to_enum st (VStr raw) (KTable table) = Inr c)
   \<and> (distinct (map fst table) \<and> (label, c) \<in> set table \<and> lower label = label
        \<longrightarrow> to_enum st (VStr label) (KTable table) = Inr c)
   \<and> (lower raw \<notin> fst ` set table \<longrightarrow>
        to_enum st (VStr raw) (KTable table) =
          Inl (Raised ValueError
                 (raw @ '' incorrect or not supported. Supported values: ''
                      @ join '', '' (map fst table))))
   \<and> ((field_name, table) \<in> set [(''access_rights'', access_rights E), (''theme'', themes E),
          (''license'', licenses E), (''status'', statuses E), (''frequency'', frequencies E)] \<longrightarrow>
        vocabulary_match E st ob field_name (VStr raw) =
          (case to_enum st (VStr raw) (KTable table) of
             Inl e \<Rightarrow> (st, Inl e)
           | Inr c \<Rightarrow> setattr E st ob field_name c))"
proof (intro conjI impI)
  assume "map_of table (lower raw) = Some c"
  then show "to_enum st (VStr raw) (KTable table) = Inr c"
    by (simp add: to_enum_def)
next
  assume a: "distinct (map fst table) \<and> (label, c) \<in> set table \<and> lower label = label"
  then have m: "map_of table label = Some c" by simp
  from a have "lower label = label" by simp
  with m show "to_enum st (VStr label) (KTable table) = Inr c"
    by (simp add: to_enum_def)
next
  assume "lower raw \<notin> fst ` set table"
  then have "map_of table (lower raw) = None" by (simp add: map_of_eq_None_iff)
  then show "to_enum st (VStr raw) (KTable table) =
          Inl (Raised ValueError
                 (raw @ '' incorrect or not supported. Supported values: ''
                      @ join '', '' (map fst table)))"
    by (simp add: to_enum_def unsupported_message_def)
next
  assume "(field_name, table) \<in> set [(''access_rights'', access_rights E), (''theme'', themes E),
          (''license'', licenses E), (''status'', statuses E), (''frequency'', frequencies E)]"
  then have "(field_name = ''access_rights'' \<and> table = access_rights E)
    \<or> (field_name = ''theme'' \<and> table = themes E)
    \<or> (field_name = ''license'' \<and> table = licenses E)
    \<or> (field_name = ''status'' \<and> table = statuses E)
    \<or> (field_name = ''frequency'' \<and> table = frequencies E)"
    by simp
  then show "vocabulary_match E st ob field_name (VStr raw) =
          (case to_enum st (VStr raw) (KTable table) of
             Inl e \<Rightarrow> (st, Inl e)
           | Inr c \<Rightarrow> setattr E st ob field_name c)"
    by (elim disjE conjE)
       (simp_all only: table_field_access_rights table_field_theme table_field_license
          table_field_status table_field_frequency)
qed

theorem to_enum_table_lookup_witness:
  "to_enum \<lparr>heap = [], warnings = []\<rparr> (VStr ''Public'')
       (KTable [(''public'', VEnum AccessRights ''public''),
                (''restricted'', VEnum AccessRights ''restricted'')])
     = Inr (VEnum AccessRights ''public'')
   \<and> to_enum \<lparr>heap = [], warnings = []\<rparr> (VStr ''restricted'')
       (KTable [(''public'', VEnum AccessRights ''public''),
                (''restricted'', VEnum AccessRights ''restricted'')])
     = Inr (VEnum AccessRights ''restricted'')
   \<and> to_enum \<lparr>heap = [], warnings = []\<rparr> (VStr ''NOT_ALLOWED'')
       (KTable [(''public'', VEnum AccessRights ''public''),
                (''restricted'', VEnum AccessRights ''restricted'')])
     = Inl (Raised ValueError
              ''NOT_ALLOWED incorrect or not supported. Supported values: public, restricted'')
   \<and> vocabulary_match example_env distribution_store (VRef 0) ''access_rights'' (VStr ''Public'')
     = (\<lparr>heap = [ONode Distribution [(''title'', VNone), (''license'', VNone),
                    (''access_rights'', VEnum AccessRights ''public'')]],
         warnings = []\<rparr>, Inr ())"
proof -
  let ?t = "[(''public'', VEnum AccessRights ''public''),
             (''restricted'', VEnum AccessRights ''restricted'')]"
  let ?st = "\<lparr>heap = [], warnings = []\<rparr>"
  have a: "map_of ?t (lower ''Public'') = Some (VEnum AccessRights ''public'')"
    by (simp add: lower_def lower_char_def upper_letters_def lower_letters_def)
  have b: "distinct (map fst ?t) \<and> (''restricted'', VEnum AccessRights ''restricted'') \<in> set ?t
           \<and> lower ''restricted'' = ''restricted''"
    by (simp add: lower_def lower_char_def upper_letters_def lower_letters_def)
  have c: "lower ''NOT_ALLOWED'' \<notin> fst ` set ?t"
    by (simp add: lower_def lower_char_def upper_letters_def lower_letters_def)
  from to_enum_table_lookup [where table = ?t and raw = "''Public''" and st = ?st
         and c = "VEnum AccessRights ''public''", THEN conjunct1] a
  have 1: "to_enum ?st (VStr ''Public'') (KTable ?t) = Inr (VEnum AccessRights ''public'')"
    by (rule mp)
  from to_enum_table_lookup [where table = ?t and label = "''restricted''" and st = ?st
         and c = "VEnum AccessRights ''restricted''", THEN conjunct2, THEN conjunct1] b
  have 2: "to_enum ?st (VStr ''restricted'') (KTable ?t) = Inr (VEnum AccessRights ''restricted'')"
    by (rule mp)
  from to_enum_table_lookup [where table = ?t and raw = "''NOT_ALLOWED''" and st = ?st,
         THEN conjunct2, THEN conjunct2, THEN conjunct1] c
  have 3: "to_enum ?st (VStr ''NOT_ALLOWED'') (KTable ?t) =
             Inl (Raised ValueError
                 (''NOT_ALLOWED'' @ '' incorrect or not supported. Supported values: ''
                      @ join '', '' (map fst ?t)))"
    by (rule mp)
  have d: "map_of (access_rights example_env) (lower ''Public'') = Some (VEnum AccessRights ''public'')"
    by (simp add: example_env_def lower_def lower_char_def upper_letters_def lower_letters_def)
  from to_enum_table_lookup [where table = "access_rights example_env" and raw = "''Public''"
         and st = distribution_store and c = "VEnum AccessRights ''public''", THEN conjunct1] d
  have e: "to_enum distribution_store (VStr ''Public'') (KTable (access_rights example_env))
             = Inr (VEnum AccessRights ''public'')"
    by (rule mp)
  have m: "(''access_rights'', access_rights example_env) \<in>
             set [(''access_rights'', access_rights example_env), (''theme'', themes example_env),
                  (''license'', licenses example_env), (''status'', statuses example_env),
                  (''frequency'', frequencies example_env)]"
    by simp
  from to_enum_table_lookup [where E = example_env and field_name = "''access_rights''"
         and table = "access_rights example_env" and raw = "''Public''" and st = distribution_store
         and ob = "VRef 0", THEN conjunct2, THEN conjunct2, THEN conjunct2] m
  have "vocabulary_match example_env distribution_store (VRef 0) ''access_rights'' (VStr ''Public'') =
          (case to_enum distribution_store (VStr ''Public'') (KTable (access_rights example_env)) of
             Inl e \<Rightarrow> (distribution_store, Inl e)
           | Inr c \<Rightarrow> setattr example_env distribution_store (VRef 0) ''access_rights'' c)"
    by (rule mp)
  then have 4: "vocabulary_match example_env distribution_store (VRef 0) ''access_rights'' (VStr ''Public'')
     = (\<lparr>heap = [ONode Distribution [(''title'', VNone), (''license'', VNone),
                    (''access_rights'', VEnum AccessRights ''public'')]],
         warnings = []\<rparr>, Inr ())"
    unfolding e by (simp add: ex_defs distribution_store_def)
  from 1 2 3 4 show ?thesis by simp
qed



section \<open>Properties of the vocabulary pass on a node\<close>

text \<open>
  C1. Idempotence of the normaliser passes: a pass that has run successfully changes
  nothing when it runs again. The vocabulary pass does not have this property. On a
  dataset whose language is the raw string \<^verbatim>\<open>english\<close> the first run succeeds and
  stores \<^verbatim>\<open>.../language/ENG\<close>; the second run succeeds too and stores
  \<^verbatim>\<open>.../language/HTT\<close>, the first three characters of the URI it finds. The guard of
  the scalar branch tests the node, not the value, against \<^verbatim>\<open>AnyHttpUrl\<close>, and the
  canonical form is a plain string in any case.
\<close>

theorem vocabulary_pass_twice:
  "string_to_enum example_env 1 language_store (VRef 0) = (language_once, Inr ())
   \<and> string_to_enum example_env 1 language_once (VRef 0) = (language_twice, Inr ())
   \<and> language_twice \<noteq> language_once"
  by (simp add: ex_defs language_store_def language_once_def language_twice_def
        vocabulary_field_def vocabulary_match_def set_enum_def to_enum_def
        language_transformation_def language_base_def upper_def upper_char_def
        upper_letters_def lower_letters_def)

text \<open>
  C7. Element-wise conversion of a list-valued \<^verbatim>\<open>theme\<close>, \<^verbatim>\<open>language\<close> or
  \<^verbatim>\<open>legal_basis\<close>: each element that is not canonical is replaced by the canonical
  form of that element. For \<^verbatim>\<open>legal_basis\<close> the code formats the whole list into the
  URI instead: the only element of \<^verbatim>\<open>["InformedConsent"]\<close> becomes
  \<^verbatim>\<open>https://w3id.org/dpv#['InformedConsent']\<close>, not
  \<^verbatim>\<open>https://w3id.org/dpv#InformedConsent\<close>, while in the same run the only element of
  the language list \<^verbatim>\<open>["eng"]\<close> becomes the URI of that element.
\<close>

theorem legal_basis_list_element:
  "string_to_enum example_env 1 legal_basis_store (VRef 0) =
     (legal_basis_store\<lparr>heap :=
        [heap legal_basis_store ! 0,
         OList [VStr (''https://w3id.org/dpv#['' @ [CHR 0x27] @ ''InformedConsent'' @ [CHR 0x27] @ '']'')],
         OList [VStr ''http://publications.europa.eu/resource/authority/language/ENG'']]\<rparr>,
      Inr ())"
  by (simp add: ex_defs legal_basis_store_def
        vocabulary_field_def vocabulary_match_def set_enum_def to_enum_def
        convert_elements_def convert_at_def list_set_def recurse_at_def
        legal_basis_transformation_def legal_basis_base_def py_str_def py_repr_atom_def plain_char_def
        language_transformation_def language_base_def upper_def upper_char_def
        upper_letters_def lower_letters_def)

section \<open>Properties of the Mapping Resolver\<close>

lemma map_of_assign: "map_of (assign k v attrs) k = Some v"
  by (induction attrs) auto

lemma write_mapped_falsy: "\<not> truthy st v \<Longrightarrow> write_mapped E st ob v f = (st, Inr ())"
  by (simp add: write_mapped_def)

lemma for_each_write_falsy:
  "\<not> truthy st v \<Longrightarrow> for_each (\<lambda>s f. write_mapped E s ob v f) st fs = (st, Inr ())"
  by (induction fs) (simp_all add: write_mapped_falsy)

lemma resolve_entry_all_falsy:
  assumes "\<forall>kv \<in> set api. \<not> truthy st (snd kv)"
  shows "fst (resolve_entry E ob (VDict api) st entry) = st"
proof (cases "map_of api (fst entry)")
  case None
  then show ?thesis by (simp add: resolve_entry_def)
next
  case (Some v)
  then have "(fst entry, v) \<in> set api" by (rule map_of_SomeD)
  with assms have "\<not> truthy st v" by auto
  with Some show ?thesis
    by (simp add: resolve_entry_def for_each_write_falsy split: sum.splits)
qed

lemma for_each_unchanged:
  assumes "\<And>x. fst (body st x) = st"
  shows "fst (for_each body st xs) = st"
proof (induction xs)
  case Nil
  show ?case by simp
next
  case (Cons x xs)
  obtain s1 r1 where b: "body st x = (s1, r1)" by (cases "body st x")
  with assms [of x] have "s1 = st" by simp
  with b Cons.IH show ?case by (cases r1) simp_all
qed

lemma populate_all_falsy:
  "\<forall>kv \<in> set api. \<not> truthy st (snd kv) \<Longrightarrow>
     fst (populate_FDP E st ob (VDict api) config) = st"
  "\<forall>kv \<in> set api. \<not> truthy st (snd kv) \<Longrightarrow>
     fst (populate_items E st ob (VDict api) kvs) = st"
proof (induction E st ob "VDict api" config and E st ob "VDict api" kvs
       rule: populate_FDP_populate_items.induct)
  case (10 E st ob field "value" rest)
  let ?step = "if field = ''catalog'' \<or> field = ''dataset'' \<or> field = ''distribution'' then
           (case getattr st ob field of
              Inl e \<Rightarrow> (st, Inl e)
            | Inr child \<Rightarrow> populate_FDP E st child (VDict api) value)
         else if field = ''mapping'' then
           (case value of
              VDict entries \<Rightarrow> for_each (resolve_entry E ob (VDict api)) st entries
            | _ \<Rightarrow> (st, Inr ()))
         else (st, Inr ())"
  have step: "fst ?step = st"
  proof (cases "field = ''catalog'' \<or> field = ''dataset'' \<or> field = ''distribution''")
    case True
    show ?thesis
    proof (cases "getattr st ob field")
      case (Inl e)
      with True show ?thesis by simp
    next
      case (Inr child)
      from "10.hyps"(1) [OF True Inr "10.prems"] True Inr show ?thesis by simp
    qed
  next
    case False
    have "fst (for_each (resolve_entry E ob (VDict api)) st entries) = st" for entries
      by (rule for_each_unchanged) (rule resolve_entry_all_falsy [OF "10.prems"])
    with False show ?thesis by (simp split: val.splits)
  qed
  obtain s1 r1 where s: "?step = (s1, r1)" by (cases ?step)
  with step have s1: "s1 = st" by simp
  show ?case
  proof (cases r1)
    case (Inl e)
    with s s1 show ?thesis by simp
  next
    case (Inr u)
    from "10.hyps"(2) [OF s [symmetric] Inr] s1 "10.prems" s Inr show ?thesis
      by simp
  qed
qed simp_all

text \<open>
  C8. No data, no write: for an entry of a mapping directive whose external field is
  absent from the API payload, the resolver returns normally with the store as it was;
  when the field is present with a falsy value (\<^verbatim>\<open>None\<close>, an empty string or list,
  zero, \<^verbatim>\<open>False\<close>) the store is as it was as well, whatever the internal fields are,
  so every field of the node reads as before. On a payload that has no truthy value
  at all, the whole resolver leaves the store as it was, for any configuration tree.
\<close>

theorem resolve_entry_no_data:
  "(map_of api k = None \<longrightarrow> resolve_entry E ob (VDict api) st (k, fs) = (st, Inr ()))
   \<and> (map_of api k = Some v \<and> \<not> truthy st v \<longrightarrow>
        fst (resolve_entry E ob (VDict api) st (k, fs)) = st
        \<and> (\<forall>name. getattr (fst (resolve_entry E ob (VDict api) st (k, fs))) ob name
                    = getattr st ob name))
   \<and> ((\<forall>kv \<in> set api. \<not> truthy st (snd kv)) \<longrightarrow>
        fst (populate_FDP E st ob (VDict api) config) = st)"
proof (intro conjI impI)
  assume "map_of api k = None"
  then show "resolve_entry E ob (VDict api) st (k, fs) = (st, Inr ())"
    by (simp add: resolve_entry_def)
next
  assume a: "map_of api k = Some v \<and> \<not> truthy st v"
  then show "fst (resolve_entry E ob (VDict api) st (k, fs)) = st"
    by (simp add: resolve_entry_def for_each_write_falsy split: sum.splits)
  then show "\<forall>name. getattr (fst (resolve_entry E ob (VDict api) st (k, fs))) ob name
                    = getattr st ob name"
    by simp
next
  assume "\<forall>kv \<in> set api. \<not> truthy st (snd kv)"
  then show "fst (populate_FDP E st ob (VDict api) config) = st"
    by (rule populate_all_falsy(1))
qed

theorem resolve_entry_no_data_witness:
  "resolve_entry example_env (VRef 0) (VDict resolver_api) resolver_store
      (''challenge_title'', VRef 4) = (resolver_store, Inr ())
   \<and> fst (resolve_entry example_env (VRef 0) (VDict resolver_api) resolver_store
      (''archive_title'', VRef 4)) = resolver_store
   \<and> fst (resolve_entry example_env (VRef 0) (VDict resolver_api) resolver_store
      (''archive_description'', VRef 4)) = resolver_store
   \<and> getattr (fst (resolve_entry example_env (VRef 0) (VDict resolver_api) resolver_store
      (''archive_title'', VRef 4))) (VRef 0) ''title'' = Inr (VStr ''Configured title'')
   \<and> fst (populate_FDP example_env resolver_store (VRef 0)
           (VDict [(''archive_title'', VNone), (''archive_description'', VStr '''')])
           (VDict [(''mapping'', VDict [(''archive_title'', VRef 4), (''archive_description'', VRef 4)])]))
       = resolver_store"
proof -
  have absent: "map_of resolver_api ''challenge_title'' = None"
    by (simp add: resolver_api_def)
  have null: "map_of resolver_api ''archive_title'' = Some VNone \<and> \<not> truthy resolver_store VNone"
    by (simp add: resolver_api_def truthy_def)
  have empty: "map_of resolver_api ''archive_description'' = Some (VStr '''')
                 \<and> \<not> truthy resolver_store (VStr '''')"
    by (simp add: resolver_api_def truthy_def)
  have g: "getattr resolver_store (VRef 0) ''title'' = Inr (VStr ''Configured title'')"
    by (simp add: resolver_store_def getattr_def obj_at_def)
  from resolve_entry_no_data [where api = resolver_api and k = "''challenge_title''"
         and E = example_env and ob = "VRef 0" and st = resolver_store and fs = "VRef 4",
         THEN conjunct1] absent
  have 1: "resolve_entry example_env (VRef 0) (VDict resolver_api) resolver_store
      (''challenge_title'', VRef 4) = (resolver_store, Inr ())" by (rule mp)
  from resolve_entry_no_data [where api = resolver_api and k = "''archive_title''"
         and E = example_env and ob = "VRef 0" and st = resolver_store and fs = "VRef 4"
         and v = VNone, THEN conjunct2, THEN conjunct1] null
  have 2: "fst (resolve_entry example_env (VRef 0) (VDict resolver_api) resolver_store
      (''archive_title'', VRef 4)) = resolver_store" by blast
  from resolve_entry_no_data [where api = resolver_api and k = "''archive_description''"
         and E = example_env and ob = "VRef 0" and st = resolver_store and fs = "VRef 4"
         and v = "VStr ''''", THEN conjunct2, THEN conjunct1] empty
  have 3: "fst (resolve_entry example_env (VRef 0) (VDict resolver_api) resolver_store
      (''archive_description'', VRef 4)) = resolver_store" by blast
  have falsy: "\<forall>kv \<in> set [(''archive_title'', VNone), (''archive_description'', VStr '''')].
                 \<not> truthy resolver_store (snd kv)"
    by (simp add: truthy_def)
  from resolve_entry_no_data [where api = "[(''archive_title'', VNone), (''archive_description'', VStr '''')]"
         and E = example_env and ob = "VRef 0" and st = resolver_store
         and config = "VDict [(''mapping'', VDict [(''archive_title'', VRef 4), (''archive_description'', VRef 4)])]",
         THEN conjunct2, THEN conjunct2] falsy
  have 4: "fst (populate_FDP example_env resolver_store (VRef 0)
           (VDict [(''archive_title'', VNone), (''archive_description'', VStr '''')])
           (VDict [(''mapping'', VDict [(''archive_title'', VRef 4), (''archive_description'', VRef 4)])]))
       = resolver_store"
    by (rule mp)
  from 1 2 3 4 g show ?thesis by simp
qed



section \<open>Properties of the cardinality pass\<close>

lemma keeps_kinds_refl: "keeps_kinds st st"
  by (simp add: keeps_kinds_def)

lemma keeps_kinds_trans: "keeps_kinds a b \<Longrightarrow> keeps_kinds b c \<Longrightarrow> keeps_kinds a c"
  by (auto simp: keeps_kinds_def)

lemma keeps_kinds_alloc: "keeps_kinds st (fst (alloc st ob))"
  by (simp add: keeps_kinds_def alloc_def nth_append)

lemma keeps_kinds_setattr: "keeps_kinds st (fst (setattr E st ob name v))"
  by (auto simp: keeps_kinds_def setattr_def obj_at_def kind_of_def nth_list_update
           split: val.splits option.splits obj.splits if_splits)




lemma class_of_keeps:
  assumes "keeps_kinds st s" and "a < length (heap st)"
  shows "class_of s (VRef a) = class_of st (VRef a)" and "is_list s (VRef a) = is_list st (VRef a)"
proof -
  from assms have "kind_of (heap s ! a) = kind_of (heap st ! a)" and "a < length (heap s)"
    by (auto simp: keeps_kinds_def)
  then show "class_of s (VRef a) = class_of st (VRef a)"
    and "is_list s (VRef a) = is_list st (VRef a)"
    using assms(2)
    by (auto simp: class_of_def is_list_def list_of_def obj_at_def kind_of_def split: obj.splits)
qed



section \<open>Properties of the traversal of the configuration tree\<close>

lemma frame_refl: "frame ob st st"
  by (simp add: frame_def keeps_kinds_refl)

lemma setattr_other:
  "b < length (heap st) \<Longrightarrow> ob \<noteq> VRef b \<Longrightarrow> heap (fst (setattr E st ob name v)) ! b = heap st ! b"
proof (cases ob)
  case (VRef n)
  assume b: "b < length (heap st)" and "ob \<noteq> VRef b"
  with VRef have nb: "n \<noteq> b" by simp
  show ?thesis
  proof (cases "obj_at st n")
    case None
    with VRef show ?thesis by (simp add: setattr_def)
  next
    case (Some x)
    with VRef nb show ?thesis by (cases x) (simp_all add: setattr_def)
  qed
qed (simp_all add: setattr_def)

lemma frame_setattr: "frame ob st (fst (setattr E st ob name v))"
  unfolding frame_def using keeps_kinds_setattr [of st E ob name v] setattr_other [of _ st ob E name v]
  by blast

lemma frame_alloc: "frame ob st (fst (alloc st x))"
  using keeps_kinds_alloc [of st x] by (simp add: frame_def alloc_def nth_append)

lemma frame_trans:
  assumes "frame ob a b" and "frame ob b c"
  shows "frame ob a c"
proof -
  from assms have k: "keeps_kinds a c" by (auto simp: frame_def intro: keeps_kinds_trans)
  have "heap c ! x = heap a ! x" if "x < length (heap a)" "ob \<noteq> VRef x" for x
  proof -
    from assms(1) that have 1: "heap b ! x = heap a ! x" and "x < length (heap b)"
      by (auto simp: frame_def keeps_kinds_def)
    with assms(2) that(2) have "heap c ! x = heap b ! x" by (simp add: frame_def)
    with 1 show ?thesis by simp
  qed
  with k show ?thesis by (simp add: frame_def)
qed

text \<open>What a call on a new child changes is new with respect to the store before the child.\<close>

lemma frame_child:
  assumes "frame ob a b" and "frame child b c" and "child = VRef n" and "length (heap a) \<le> n"
  shows "frame ob a c"
proof -
  from assms have k: "keeps_kinds a c" by (auto simp: frame_def intro: keeps_kinds_trans)
  have "heap c ! x = heap a ! x" if "x < length (heap a)" "ob \<noteq> VRef x" for x
  proof -
    from assms(1) that have 1: "heap b ! x = heap a ! x" and 2: "x < length (heap b)"
      by (auto simp: frame_def keeps_kinds_def)
    from that(1) assms(3,4) have "child \<noteq> VRef x" by simp
    with assms(2) 2 have "heap c ! x = heap b ! x" by (simp add: frame_def)
    with 1 show ?thesis by simp
  qed
  with k show ?thesis by (simp add: frame_def)
qed

lemma setattr_ok:
  assumes "setattr E st ob name v = (st', Inr u)"
  shows "\<exists>n c attrs. ob = VRef n \<and> obj_at st n = Some (ONode c attrs)
           \<and> name \<in> fst ` set (model_fields E c)
           \<and> st' = st\<lparr>heap := (heap st)[n := ONode c (assign name v attrs)]\<rparr>"
proof (cases ob)
  case (VRef n)
  show ?thesis
  proof (cases "obj_at st n")
    case None
    with VRef assms show ?thesis by (simp add: setattr_def)
  next
    case (Some x)
    show ?thesis
    proof (cases x)
      case (OList xs)
      with VRef Some assms show ?thesis by (simp add: setattr_def)
    next
      case (ONode c attrs)
      with VRef Some assms show ?thesis by (simp add: setattr_def split: if_splits)
    qed
  qed
qed (use assms in \<open>simp_all add: setattr_def\<close>)

lemma getattr_setattr:
  assumes "setattr E st ob name v = (st', Inr u)"
  shows "getattr st' ob name = Inr v"
proof -
  from setattr_ok [OF assms] obtain n c attrs where ob: "ob = VRef n"
    and node: "obj_at st n = Some (ONode c attrs)"
    and st': "st' = st\<lparr>heap := (heap st)[n := ONode c (assign name v attrs)]\<rparr>"
    by blast
  from node have "n < length (heap st)" by (simp add: obj_at_def split: if_splits)
  with ob st' show ?thesis by (simp add: getattr_def obj_at_def map_of_assign)
qed

lemma fill_frame:
  "frame ob st (fst (fill_fields E st ob cfg))"
  "frame ob st (fst (fill_items E st ob kvs))"
proof (induction E st ob cfg and E st ob kvs rule: fill_fields_fill_items.induct)
  case (10 E st ob key "value" rest)
  let ?step = "if is_list st value then setattr E st ob key value
         else
           (case structural_class key of
              Some c \<Rightarrow>
                (case alloc st (model_construct E c) of
                   (st1, a) \<Rightarrow>
                     (case setattr E st1 ob key (VRef a) of
                        (st2, Inl e) \<Rightarrow> (st2, Inl e)
                      | (st2, Inr u) \<Rightarrow>
                          (case getattr st2 ob key of
                             Inl e \<Rightarrow> (st2, Inl e)
                           | Inr child \<Rightarrow> fill_fields E st2 child value)))
            | None \<Rightarrow>
                (if key = ''mapping'' then (st, Inr ())
                 else if truthy st value then setattr E st ob key value
                 else (st, Inr ())))"
  have step: "frame ob st (fst ?step)"
  proof (cases "is_list st value")
    case True
    then show ?thesis by (simp add: frame_setattr)
  next
    case nl: False
    show ?thesis
    proof (cases "structural_class key")
      case None
      with nl show ?thesis by (simp add: frame_setattr frame_refl)
    next
      case (Some c)
      obtain st1 a where al: "alloc st (model_construct E c) = (st1, a)"
        by (cases "alloc st (model_construct E c)")
      then have a: "a = length (heap st)" and st1: "st1 = fst (alloc st (model_construct E c))"
        by (auto simp: alloc_def)
      have f1: "frame ob st st1" unfolding st1 by (rule frame_alloc)
      obtain st2 r2 where sa: "setattr E st1 ob key (VRef a) = (st2, r2)"
        by (cases "setattr E st1 ob key (VRef a)")
      have "frame ob st1 st2" using frame_setattr [of ob st1 E key "VRef a"] sa by simp
      with f1 have f2: "frame ob st st2" by (rule frame_trans)
      show ?thesis
      proof (cases r2)
        case (Inl e)
        with nl Some al sa f2 show ?thesis by simp
      next
        case (Inr u)
        show ?thesis
        proof (cases "getattr st2 ob key")
          case (Inl e)
          with nl Some al sa Inr f2 show ?thesis by simp
        next
          case g: (Inr child)
          have ih: "frame child st2 (fst (fill_fields E st2 child value))"
            using "10.IH"(1) [OF nl Some al [symmetric] sa [symmetric] Inr g] .
          from sa Inr have "getattr st2 ob key = Inr (VRef a)"
            by (simp add: getattr_setattr)
          with g have child: "child = VRef a" by simp
          have "length (heap st) \<le> a" using a by simp
          from frame_child [OF f2 ih child this]
          have "frame ob st (fst (fill_fields E st2 child value))" .
          with nl Some al sa Inr g show ?thesis by simp
        qed
      qed
    qed
  qed
  obtain s1 r1 where s: "?step = (s1, r1)" by (cases ?step)
  with step have s1: "frame ob st s1" by simp
  show ?case
  proof (cases r1)
    case (Inl e)
    with s s1 show ?thesis by simp
  next
    case (Inr u)
    have "frame ob s1 (fst (fill_items E s1 ob rest))"
      using "10.IH"(2) [OF s [symmetric] Inr] .
    with s1 have "frame ob st (fst (fill_items E s1 ob rest))" by (rule frame_trans)
    with s Inr show ?thesis by simp
  qed
qed (simp_all add: frame_refl)

lemma setattr_length: "length (heap (fst (setattr E st ob name v))) = length (heap st)"
proof (cases ob)
  case (VRef n)
  show ?thesis
  proof (cases "obj_at st n")
    case None
    with VRef show ?thesis by (simp add: setattr_def)
  next
    case (Some x)
    with VRef show ?thesis by (cases x) (simp_all add: setattr_def)
  qed
qed (simp_all add: setattr_def)

lemma fill_structural:
  assumes c: "structural_class key = Some c" and nl: "\<not> is_list st sub"
    and sa: "setattr E (st\<lparr>heap := heap st @ [model_construct E c]\<rparr>) ob key
               (VRef (length (heap st))) = (st2, r2)"
  shows "fill_fields E st ob (VDict [(key, sub)]) =
           (case r2 of
              Inl e \<Rightarrow> (st2, Inl e)
            | Inr u \<Rightarrow>
                (case fill_fields E st2 (VRef (length (heap st))) sub of
                   (s, Inl e) \<Rightarrow> (s, Inl e)
                 | (s, Inr u) \<Rightarrow> (s, Inr ())))"
proof (cases r2)
  case (Inl e)
  with c nl sa show ?thesis by (simp add: alloc_def)
next
  case (Inr u)
  with sa have g: "getattr st2 ob key = Inr (VRef (length (heap st)))"
    by (simp add: getattr_setattr)
  obtain s r where f: "fill_fields E st2 (VRef (length (heap st))) sub = (s, r)"
    by (cases "fill_fields E st2 (VRef (length (heap st))) sub")
  show ?thesis
  proof (cases r)
    case (Inl e)
    with c nl sa Inr g f show ?thesis by (simp add: alloc_def)
  next
    case r: (Inr w)
    with c nl sa Inr g f show ?thesis by (simp add: alloc_def)
  qed
qed

lemma populate_structural_step:
  "key \<in> {''catalog'', ''dataset'', ''distribution''} \<Longrightarrow> getattr st ob key = Inr child \<Longrightarrow>
   populate_FDP E st ob api_data (VDict ((key, sub) # rest)) =
        (case populate_FDP E st child api_data sub of
           (st', Inl e) \<Rightarrow> (st', Inl e)
         | (st', Inr u) \<Rightarrow> populate_FDP E st' ob api_data (VDict rest))"
  by (auto split: prod.splits sum.splits)

text \<open>
  C9, as stated, fails for \<^verbatim>\<open>creator\<close>. The configuration
  \<^verbatim>\<open>{catalog: {creator: {mapping: {"challenge_creator": ["homepage"]}}}}\<close> with the
  payload \<^verbatim>\<open>{"challenge_creator": "https://creator.org"}\<close> builds a record whose
  catalog has an agent as creator, and after the resolver has run the homepage of
  that agent is still null: the directive under \<^verbatim>\<open>creator\<close> was not resolved.
\<close>

theorem populate_skips_creator:
  "snd (create_FDP_instance example_env creator_store creator_config creator_api) = Inr (VRef 1)
   \<and> getattr (fst (create_FDP_instance example_env creator_store creator_config creator_api))
        (VRef 1) ''catalog'' = Inr (VRef 2)
   \<and> getattr (fst (create_FDP_instance example_env creator_store creator_config creator_api))
        (VRef 2) ''creator'' = Inr (VRef 3)
   \<and> class_of (fst (create_FDP_instance example_env creator_store creator_config creator_api))
        (VRef 3) = Some Agent
   \<and> getattr (fst (create_FDP_instance example_env creator_store creator_config creator_api))
        (VRef 3) ''homepage'' = Inr VNone"
  by (simp add: run_defs creator_store_def creator_config_def creator_api_def)

text \<open>
  C9, amended. For the structural keys \<^verbatim>\<open>catalog\<close>, \<^verbatim>\<open>dataset\<close> and
  \<^verbatim>\<open>distribution\<close> the resolver recurses into the child held by the field of that
  name, with the sub-tree of the configuration under that key, and then goes on with
  the rest of the configuration. Under \<^verbatim>\<open>creator\<close>, \<^verbatim>\<open>publisher\<close> and
  \<^verbatim>\<open>contact_point\<close> it does not recurse: the sub-tree, mapping directives included,
  has no effect. For the first three keys the resolver mirrors the Field Filler: when
  the filler has filled \<^verbatim>\<open>{key: sub}\<close> into a node, the field \<^verbatim>\<open>key\<close> of that node
  holds the child the filler made, a node of the class of that key, and resolving
  \<^verbatim>\<open>{key: sub}\<close> against the node is resolving \<^verbatim>\<open>sub\<close> against that child.
\<close>

theorem populate_structural_keys:
  "(key \<in> {''catalog'', ''dataset'', ''distribution''} \<and> getattr st ob key = Inr child \<longrightarrow>
      populate_FDP E st ob api_data (VDict ((key, sub) # rest)) =
        (case populate_FDP E st child api_data sub of
           (st', Inl e) \<Rightarrow> (st', Inl e)
         | (st', Inr u) \<Rightarrow> populate_FDP E st' ob api_data (VDict rest)))
   \<and> (key \<in> {''creator'', ''publisher'', ''contact_point''} \<longrightarrow>
      populate_FDP E st ob api_data (VDict ((key, sub) # rest)) =
        populate_FDP E st ob api_data (VDict rest))
   \<and> (key \<in> {''catalog'', ''dataset'', ''distribution''} \<and> is_node st ob \<and> \<not> is_list st sub
        \<and> fill_fields E st ob (VDict [(key, sub)]) = (st1, Inr ()) \<longrightarrow>
        getattr st1 ob key = Inr (VRef (length (heap st)))
        \<and> class_of st1 (VRef (length (heap st))) = structural_class key
        \<and> populate_FDP E st1 ob api_data (VDict [(key, sub)]) =
            populate_FDP E st1 (VRef (length (heap st))) api_data sub)"
proof -
  note 1 = populate_structural_step
  have 2: "populate_FDP E st ob api_data (VDict ((key, sub) # rest)) =
        populate_FDP E st ob api_data (VDict rest)"
    if "key \<in> {''creator'', ''publisher'', ''contact_point''}"
    using that by auto
  have 3: "getattr st1 ob key = Inr (VRef (length (heap st)))
        \<and> class_of st1 (VRef (length (heap st))) = structural_class key
        \<and> populate_FDP E st1 ob api_data (VDict [(key, sub)]) =
            populate_FDP E st1 (VRef (length (heap st))) api_data sub"
    if key: "key \<in> {''catalog'', ''dataset'', ''distribution''}" and node: "is_node st ob"
      and nl: "\<not> is_list st sub" and fill: "fill_fields E st ob (VDict [(key, sub)]) = (st1, Inr ())"
  proof -
    let ?a = "length (heap st)"
    from key obtain c where c: "structural_class key = Some c"
      by (auto simp: structural_class_def)
    let ?sa = "st\<lparr>heap := heap st @ [model_construct E c]\<rparr>"
    have al: "alloc st (model_construct E c) = (?sa, ?a)" by (simp add: alloc_def)
    obtain st2 r2 where sa: "setattr E ?sa ob key (VRef ?a) = (st2, r2)"
      by (cases "setattr E ?sa ob key (VRef ?a)")
    note un = fill_structural [OF c nl sa]
    from fill un obtain u where r2: "r2 = Inr u" by (cases r2) simp_all
    from sa r2 have g2: "getattr st2 ob key = Inr (VRef ?a)" by (simp add: getattr_setattr)
    obtain s r where f0: "fill_fields E st2 (VRef ?a) sub = (s, r)"
      by (cases "fill_fields E st2 (VRef ?a) sub")
    from fill un r2 f0 have "s = st1 \<and> (\<exists>w. r = Inr w)" by (cases r) simp_all
    with f0 have f: "fill_fields E st2 (VRef ?a) sub = (st1, Inr ())" by auto
    from node obtain n where ob: "ob = VRef n"
      by (cases ob) (simp_all add: is_node_def class_of_def)
    from node ob have n: "n < length (heap st)"
      by (simp add: is_node_def class_of_def obj_at_def split: if_splits)
    from sa have st2: "st2 = fst (setattr E ?sa ob key (VRef ?a))" by simp
    have len2: "length (heap st2) = Suc ?a"
      unfolding st2 by (simp add: setattr_length)
    from ob n have "ob \<noteq> VRef ?a" by simp
    then have "heap st2 ! ?a = heap ?sa ! ?a"
      unfolding st2 by (intro setattr_other) simp_all
    then have child2: "heap st2 ! ?a = model_construct E c" by simp
    have fr: "frame (VRef ?a) st2 st1" using fill_frame(1) [of "VRef ?a" st2 E sub] f by simp
    from n len2 have n2: "n < length (heap st2)" by simp
    from n have "VRef ?a \<noteq> VRef n" by simp
    with fr n2 have same: "heap st1 ! n = heap st2 ! n" by (simp add: frame_def)
    from fr have kk: "keeps_kinds st2 st1" by (simp add: frame_def)
    with n2 have n1: "n < length (heap st1)" by (simp add: keeps_kinds_def)
    have "obj_at st1 n = obj_at st2 n" using n1 n2 same by (simp add: obj_at_def)
    then have "getattr st1 (VRef n) key = getattr st2 (VRef n) key" by (simp add: getattr_def)
    with g2 ob have g1: "getattr st1 ob key = Inr (VRef ?a)" by simp
    from len2 have a2: "?a < length (heap st2)" by simp
    have "class_of st2 (VRef ?a) = Some c"
      using a2 child2 by (simp add: class_of_def obj_at_def model_construct_def)
    with class_of_keeps(1) [OF kk a2] have c1: "class_of st1 (VRef ?a) = Some c" by simp
    obtain s' r' where p: "populate_FDP E st1 (VRef ?a) api_data sub = (s', r')"
      by (cases "populate_FDP E st1 (VRef ?a) api_data sub")
    from 1 [OF key g1, where rest = "[]" and E = E and api_data = api_data and sub = sub] p
    have "populate_FDP E st1 ob api_data (VDict [(key, sub)]) =
            populate_FDP E st1 (VRef ?a) api_data sub"
      by (cases r') simp_all
    with g1 c1 c show ?thesis by simp
  qed
  show ?thesis
  proof (intro conjI impI)
    assume "key \<in> {''catalog'', ''dataset'', ''distribution''} \<and> getattr st ob key = Inr child"
    then show "populate_FDP E st ob api_data (VDict ((key, sub) # rest)) =
        (case populate_FDP E st child api_data sub of
           (st', Inl e) \<Rightarrow> (st', Inl e)
         | (st', Inr u) \<Rightarrow> populate_FDP E st' ob api_data (VDict rest))"
      using 1 [of key st ob child E api_data sub rest] by (elim conjE)
  next
    assume "key \<in> {''creator'', ''publisher'', ''contact_point''}"
    then show "populate_FDP E st ob api_data (VDict ((key, sub) # rest)) =
        populate_FDP E st ob api_data (VDict rest)"
      by (rule 2)
  next
    assume h: "key \<in> {''catalog'', ''dataset'', ''distribution''} \<and> is_node st ob \<and> \<not> is_list st sub
        \<and> fill_fields E st ob (VDict [(key, sub)]) = (st1, Inr ())"
    from h have h1: "key \<in> {''catalog'', ''dataset'', ''distribution''}" and h2: "is_node st ob"
      and h3: "\<not> is_list st sub" and h4: "fill_fields E st ob (VDict [(key, sub)]) = (st1, Inr ())"
      by blast+
    note r = 3 [OF h1 h2 h3 h4]
    from r show "getattr st1 ob key = Inr (VRef (length (heap st)))" by (rule conjunct1)
    from r show "class_of st1 (VRef (length (heap st))) = structural_class key"
      by (rule conjunct2 [THEN conjunct1])
    from r show "populate_FDP E st1 ob api_data (VDict [(key, sub)]) =
            populate_FDP E st1 (VRef (length (heap st))) api_data sub"
      by (rule conjunct2 [THEN conjunct2])
  qed
qed

theorem populate_structural_keys_witness:
  "fill_fields example_env unfilled_store (VRef 0) (VDict [(''dataset'', scenario_sub)])
     = (scenario_store, Inr ())
   \<and> getattr scenario_store (VRef 0) ''dataset'' = Inr (VRef 3)
   \<and> class_of scenario_store (VRef 3) = Some Dataset
   \<and> populate_FDP example_env scenario_store (VRef 0) scenario_api (VDict [(''dataset'', scenario_sub)])
     = populate_FDP example_env scenario_store (VRef 3) scenario_api scenario_sub
   \<and> populate_FDP example_env scenario_store (VRef 3) scenario_api scenario_sub
     = (scenario_store\<lparr>heap := (heap scenario_store)
           [3 := ONode Dataset [(''keyword'', VRef 2), (''legal_basis'', VNone), (''language'', VNone),
                                (''title'', VStr ''Title X'')]]\<rparr>, Inr ())
   \<and> populate_FDP example_env scenario_store (VRef 0) scenario_api
        (VDict [(''creator'', scenario_sub), (''dataset'', scenario_sub)])
     = populate_FDP example_env scenario_store (VRef 0) scenario_api (VDict [(''dataset'', scenario_sub)])"
proof -
  have fill: "fill_fields example_env unfilled_store (VRef 0) (VDict [(''dataset'', scenario_sub)])
     = (scenario_store, Inr ())"
    by (simp add: run_defs unfilled_store_def scenario_store_def scenario_sub_def)
  have pre: "''dataset'' \<in> {''catalog'', ''dataset'', ''distribution''} \<and> is_node unfilled_store (VRef 0)
        \<and> \<not> is_list unfilled_store scenario_sub
        \<and> fill_fields example_env unfilled_store (VRef 0) (VDict [(''dataset'', scenario_sub)])
            = (scenario_store, Inr ())"
    using fill by (simp add: ex_defs unfilled_store_def scenario_sub_def)
  have len: "length (heap unfilled_store) = 3" by (simp add: unfilled_store_def)
  from populate_structural_keys [where key = "''dataset''" and st = unfilled_store and ob = "VRef 0"
         and sub = scenario_sub and E = example_env and ?st1.0 = scenario_store
         and api_data = scenario_api, THEN conjunct2, THEN conjunct2] pre
  have link: "getattr scenario_store (VRef 0) ''dataset'' = Inr (VRef (length (heap unfilled_store)))
        \<and> class_of scenario_store (VRef (length (heap unfilled_store))) = structural_class ''dataset''
        \<and> populate_FDP example_env scenario_store (VRef 0) scenario_api (VDict [(''dataset'', scenario_sub)]) =
            populate_FDP example_env scenario_store (VRef (length (heap unfilled_store))) scenario_api scenario_sub"
    by (rule mp)
  have child: "populate_FDP example_env scenario_store (VRef 3) scenario_api scenario_sub
     = (scenario_store\<lparr>heap := (heap scenario_store)
           [3 := ONode Dataset [(''keyword'', VRef 2), (''legal_basis'', VNone), (''language'', VNone),
                                (''title'', VStr ''Title X'')]]\<rparr>, Inr ())"
    by (simp add: run_defs scenario_store_def scenario_sub_def scenario_api_def)
  have "''creator'' \<in> {''creator'', ''publisher'', ''contact_point''}" by simp
  with populate_structural_keys [where key = "''creator''" and st = scenario_store and ob = "VRef 0"
         and sub = scenario_sub and E = example_env and api_data = scenario_api
         and rest = "[(''dataset'', scenario_sub)]", THEN conjunct2, THEN conjunct1]
  have skip: "populate_FDP example_env scenario_store (VRef 0) scenario_api
        (VDict [(''creator'', scenario_sub), (''dataset'', scenario_sub)])
     = populate_FDP example_env scenario_store (VRef 0) scenario_api (VDict [(''dataset'', scenario_sub)])"
    by (rule mp)
  from link have l1: "getattr scenario_store (VRef 0) ''dataset'' = Inr (VRef 3)"
    and l2: "class_of scenario_store (VRef 3) = Some Dataset"
    and l3: "populate_FDP example_env scenario_store (VRef 0) scenario_api (VDict [(''dataset'', scenario_sub)])
     = populate_FDP example_env scenario_store (VRef 3) scenario_api scenario_sub"
    by (simp_all add: len structural_class_def del: populate_FDP.simps)
  from fill l1 l2 l3 child skip show ?thesis by (intro conjI)
qed

section \<open>Properties of the Validator\<close>

lemma extends_refl: "extends st st"
  by (simp add: extends_def)

lemma extends_trans: "extends a b \<Longrightarrow> extends b c \<Longrightarrow> extends a c"
  by (auto simp: extends_def)

lemma extends_alloc: "extends st (fst (alloc st ob))"
  by (simp add: extends_def alloc_def)

lemma collect_extends:
  assumes "\<And>s x. extends s (fst (body s x))"
  shows "extends st (fst (collect body st xs))"
proof (induction xs arbitrary: st)
  case Nil
  show ?case by (simp add: extends_refl)
next
  case (Cons x xs)
  obtain s1 r1 where b: "body st x = (s1, r1)" by (cases "body st x")
  have e1: "extends st s1" using assms [of st x] b by simp
  show ?case
  proof (cases r1)
    case (Inl e)
    with b e1 show ?thesis by simp
  next
    case (Inr y)
    obtain s2 r2 where c: "collect body s1 xs = (s2, r2)" by (cases "collect body s1 xs")
    have "extends s1 s2" using Cons.IH [of s1] c by simp
    with e1 have "extends st s2" by (rule extends_trans)
    with b Inr c show ?thesis by (cases r2) simp_all
  qed
qed

lemma drop_fields_extends:
  assumes "\<And>s v. extends s (fst (rec s v))"
  shows "extends st (fst (drop_fields rec data st fs))"
proof (induction fs arbitrary: st)
  case Nil
  show ?case by (simp add: extends_refl)
next
  case (Cons f fs)
  obtain name field where f: "f = (name, field)" by (cases f)
  show ?case
  proof (cases "getattr st data name")
    case (Inl e)
    with f show ?thesis by (simp add: extends_refl)
  next
    case (Inr "value")
    show ?thesis
    proof (cases "value \<noteq> VNone \<or> is_required field")
      case False
      with f Inr Cons.IH [of st] show ?thesis by simp
    next
      case True
      obtain s1 r1 where b: "rec st value = (s1, r1)" by (cases "rec st value")
      have e1: "extends st s1" using assms [of st "value"] b by simp
      show ?thesis
      proof (cases r1)
        case (Inl e)
        with f Inr True b e1 show ?thesis by simp
      next
        case (Inr r)
        obtain s2 r2 where c: "drop_fields rec data s1 fs = (s2, r2)"
          by (cases "drop_fields rec data s1 fs")
        have "extends s1 s2" using Cons.IH [of s1] c by simp
        with e1 have "extends st s2" by (rule extends_trans)
        with f \<open>getattr st data name = Inr value\<close> True b Inr c show ?thesis
          by (cases r2) simp_all
      qed
    qed
  qed
qed

lemma drop_none_extends: "extends st (fst (drop_none E n st data))"
proof (induction n arbitrary: st data)
  case 0
  show ?case by (simp add: extends_refl)
next
  case (Suc n)
  have rec: "\<And>s v. extends s (fst (drop_none E n s v))" by (rule Suc.IH)
  show ?case
  proof (cases data)
    case (VRef a)
    show ?thesis
    proof (cases "obj_at st a")
      case None
      with VRef show ?thesis by (simp add: extends_refl)
    next
      case (Some ob)
      show ?thesis
      proof (cases ob)
        case (OList xs)
        obtain s1 r1 where c: "collect (drop_none E n) st (filter (\<lambda>v. v \<noteq> VNone) xs) = (s1, r1)"
          by (cases "collect (drop_none E n) st (filter (\<lambda>v. v \<noteq> VNone) xs)")
        have e1: "extends st s1"
          using collect_extends [of "drop_none E n" st "filter (\<lambda>v. v \<noteq> VNone) xs", OF rec] c by simp
        show ?thesis
        proof (cases r1)
          case (Inl e)
          with VRef Some OList c e1 show ?thesis by simp
        next
          case (Inr ys)
          obtain s2 b where al: "alloc s1 (OList ys) = (s2, b)" by (cases "alloc s1 (OList ys)")
          have "extends s1 s2" using extends_alloc [of s1 "OList ys"] al by simp
          with e1 have "extends st s2" by (rule extends_trans)
          with VRef Some OList c Inr al show ?thesis by simp
        qed
      next
        case (ONode c attrs)
        obtain s1 r1 where d: "drop_fields (drop_none E n) data st (model_fields E c) = (s1, r1)"
          by (cases "drop_fields (drop_none E n) data st (model_fields E c)")
        have "extends st s1"
          using drop_fields_extends [of "drop_none E n" st data "model_fields E c", OF rec] d by simp
        with VRef Some ONode d show ?thesis by (cases r1) simp_all
      qed
    qed
  next
    case (VDict kvs)
    let ?body = "\<lambda>s kv. case drop_none E n s (snd kv) of
                          (s1, Inl e) \<Rightarrow> (s1, Inl e)
                        | (s1, Inr r) \<Rightarrow> (s1, Inr (fst kv, r))"
    have b: "\<And>s kv. extends s (fst (?body s kv))"
    proof -
      fix s kv
      obtain s1 r1 where x: "drop_none E n s (snd kv) = (s1, r1)" by (cases "drop_none E n s (snd kv)")
      have "extends s s1" using rec [of s "snd kv"] x by simp
      with x show "extends s (fst (?body s kv))" by (cases r1) simp_all
    qed
    obtain s1 r1 where c: "collect ?body st (filter (\<lambda>kv. snd kv \<noteq> VNone) kvs) = (s1, r1)"
      by (cases "collect ?body st (filter (\<lambda>kv. snd kv \<noteq> VNone) kvs)")
    have "extends st s1"
      using collect_extends [of ?body st "filter (\<lambda>kv. snd kv \<noteq> VNone) kvs", OF b] c by simp
    with VDict c show ?thesis by (cases r1) simp_all
  qed (simp_all add: extends_refl)
qed

text \<open>
  C10. \<^verbatim>\<open>validate\<close> does not change the record tree: whatever the fuel, the
  validator and the outcome (success or any exception), every object that was in the
  store before the call, node or list, is in it afterwards with the same contents, and
  no warning was added. The snapshot is made of new objects only.
\<close>

theorem validate_does_not_mutate:
  "warnings (fst (validate E model_validate n st self)) = warnings st
   \<and> length (heap st) \<le> length (heap (fst (validate E model_validate n st self)))
   \<and> (\<forall>a < length (heap st). obj_at (fst (validate E model_validate n st self)) a = obj_at st a)"
proof -
  obtain s1 r1 where d: "drop_none E n st self = (s1, r1)" by (cases "drop_none E n st self")
  have e: "extends st s1" using drop_none_extends [of st E n self] d by simp
  have v: "fst (validate E model_validate n st self) = s1"
    using d by (cases r1) (simp_all add: validate_def split: option.splits)
  from e obtain new where w: "warnings s1 = warnings st" and h: "heap s1 = heap st @ new"
    by (auto simp: extends_def)
  from h have "\<forall>a < length (heap st). obj_at s1 a = obj_at st a"
    by (simp add: obj_at_def nth_append)
  with w h v show ?thesis by simp
qed

theorem validate_does_not_mutate_witness:
  "validate example_env example_validate 3 snapshot_store (VRef 0) =
     (snapshot_store\<lparr>heap := heap snapshot_store @
          [OList [VStr ''Title''], OList [VStr ''Medical'']]\<rparr>, Inr ())
   \<and> obj_at (fst (validate example_env example_validate 3 snapshot_store (VRef 0))) 0
        = obj_at snapshot_store 0
   \<and> obj_at (fst (validate example_env example_validate 3 snapshot_store (VRef 0))) 1
        = obj_at snapshot_store 1
   \<and> obj_at (fst (validate example_env example_validate 3 snapshot_store (VRef 0))) 2
        = obj_at snapshot_store 2
   \<and> obj_at (fst (validate example_env example_validate 2 snapshot_store (VRef 0))) 0
        = obj_at snapshot_store 0
   \<and> snd (validate example_env example_validate 2 snapshot_store (VRef 0))
        = Inl (Builtin RecursionError)"
proof -
  have len: "length (heap snapshot_store) = 3" by (simp add: snapshot_store_def)
  have run: "validate example_env example_validate 3 snapshot_store (VRef 0) =
     (snapshot_store\<lparr>heap := heap snapshot_store @
          [OList [VStr ''Title''], OList [VStr ''Medical'']]\<rparr>, Inr ())"
    by (simp add: validate_def ex_defs snapshot_store_def example_validate_def is_required_def
          alloc_def numeral_3_eq_3)
  have err: "snd (validate example_env example_validate 2 snapshot_store (VRef 0))
        = Inl (Builtin RecursionError)"
    by (simp add: validate_def ex_defs snapshot_store_def is_required_def numeral_2_eq_2)
  from validate_does_not_mutate [of example_env example_validate 3 snapshot_store "VRef 0"] len
  have 2: "\<forall>a<3. obj_at (fst (validate example_env example_validate 3 snapshot_store (VRef 0))) a
        = obj_at snapshot_store a" by simp
  from validate_does_not_mutate [of example_env example_validate 2 snapshot_store "VRef 0"] len
  have 1: "\<forall>a<3. obj_at (fst (validate example_env example_validate 2 snapshot_store (VRef 0))) a
        = obj_at snapshot_store a" by simp
  from run err 1 2 show ?thesis by simp
qed













end
